theory Spec2Isabelle
  imports Complex_Main "HOL-Library.Word"
begin

section \<open>Decoded JSON values and the Python operations the client applies to them\<close>

text \<open>
  The client works on whatever \<^verbatim>\<open>json.loads\<close> returns: \<^verbatim>\<open>None\<close>, a bool, an int, a
  float, a str, a list or a dict. A dict is an association list; Python dicts have unique
  keys, and \<open>map_of\<close> reads the first binding of a key. A finite float is the rational
  it denotes (Python compares floats with ints exactly); \<^verbatim>\<open>json.loads\<close> also accepts
  \<^verbatim>\<open>NaN\<close>, \<^verbatim>\<open>Infinity\<close> and \<^verbatim>\<open>-Infinity\<close>. A string is a list of characters, one per
  code point (below 256).
\<close>

datatype pyfloat = Finite rat | PosInf | NegInf | NaN

datatype json =
    JNull
  | JBool bool
  | JInt int
  | JFloat pyfloat
  | JString string
  | JArray "json list"
  | JObject "(string \<times> json) list"

text \<open>
  Every failure of the Python code is a value. \<open>MCPError\<close> is the repository's own
  exception class (\<^verbatim>\<open>class MCPError(RuntimeError)\<close>) with its message; the others are the
  built-in exceptions the code can raise on ill-typed JSON, and those the standard library
  raises under it: \<open>DecodeError\<close> stands for whatever \<^verbatim>\<open>base64.b64decode\<close> raises
  (\<^verbatim>\<open>binascii.Error\<close>, \<^verbatim>\<open>ValueError\<close>), \<open>JSONDecodeError\<close> and \<open>RecursionError\<close> come from
  \<^verbatim>\<open>json.loads\<close>, \<open>UnicodeDecodeError\<close> from reading a text stream. \<open>Hang\<close> is not an exception:
  it is the outcome of a call that blocks forever and never returns.
\<close>

datatype error =
    MCPError string
  | AttributeError
  | TypeError
  | AssertionError
  | KeyError
  | StructError
  | DecodeError
  | JSONDecodeError
  | RecursionError
  | UnicodeDecodeError
  | Hang

text \<open>Truth value of a decoded value, as \<^verbatim>\<open>if x\<close> and \<^verbatim>\<open>not x\<close> test it.\<close>

fun truthy :: "json \<Rightarrow> bool" where
  "truthy JNull = False"
| "truthy (JBool b) = b"
| "truthy (JInt n) = (n \<noteq> 0)"
| "truthy (JFloat (Finite q)) = (q \<noteq> 0)"
| "truthy (JFloat f) = True"
| "truthy (JString s) = (s \<noteq> [])"
| "truthy (JArray xs) = (xs \<noteq> [])"
| "truthy (JObject kvs) = (kvs \<noteq> [])"

text \<open>
  \<^verbatim>\<open>v == n\<close> for an int \<open>n\<close>: a bool is an int in Python (\<^verbatim>\<open>True == 1\<close>), and a float
  equals the int it denotes (\<^verbatim>\<open>1.0 == 1\<close>).
\<close>

fun py_eq_int :: "json \<Rightarrow> int \<Rightarrow> bool" where
  "py_eq_int (JInt m) n = (m = n)"
| "py_eq_int (JBool b) n = ((if b then 1 else 0) = n)"
| "py_eq_int (JFloat (Finite q)) n = (q = of_int n)"
| "py_eq_int v n = False"

text \<open>\<^verbatim>\<open>v == s\<close> for a str \<open>s\<close>: only a str equals a str.\<close>

fun py_eq_str :: "json \<Rightarrow> string \<Rightarrow> bool" where
  "py_eq_str (JString t) s = (t = s)"
| "py_eq_str v s = False"

text \<open>\<^verbatim>\<open>d.get(k, default)\<close> on a dict.\<close>

definition dict_get :: "(string \<times> json) list \<Rightarrow> string \<Rightarrow> json \<Rightarrow> json" where
  "dict_get kvs k d = (case map_of kvs k of None \<Rightarrow> d | Some v \<Rightarrow> v)"

text \<open>
  \<^verbatim>\<open>v.get(k, default)\<close> on any decoded value: only a dict has \<^verbatim>\<open>get\<close>; on every other
  value the attribute lookup raises \<^verbatim>\<open>AttributeError\<close>.
\<close>

fun py_get :: "json \<Rightarrow> string \<Rightarrow> json \<Rightarrow> error + json" where
  "py_get (JObject kvs) k d = Inr (dict_get kvs k d)"
| "py_get v k d = Inl AttributeError"

text \<open>\<^verbatim>\<open>needle in hay\<close> on two strs: substring test.\<close>

fun contains_str :: "string \<Rightarrow> string \<Rightarrow> bool" where
  "contains_str needle [] = (needle = [])"
| "contains_str needle (c # cs) =
     (take (length needle) (c # cs) = needle \<or> contains_str needle cs)"

text \<open>
  \<^verbatim>\<open>k in v\<close> for a str \<open>k\<close>: key membership on a dict, element membership on a list,
  substring on a str; the other values are not iterable (\<^verbatim>\<open>TypeError\<close>).
\<close>

fun py_in :: "string \<Rightarrow> json \<Rightarrow> error + bool" where
  "py_in k (JObject kvs) = Inr (map_of kvs k \<noteq> None)"
| "py_in k (JArray xs) = Inr (JString k \<in> set xs)"
| "py_in k (JString s) = Inr (contains_str k s)"
| "py_in k v = Inl TypeError"

text \<open>
  \<^verbatim>\<open>for part in v\<close>: a list yields its elements, a dict its keys, a str its characters;
  the other values are not iterable.
\<close>

fun py_iter :: "json \<Rightarrow> error + json list" where
  "py_iter (JArray xs) = Inr xs"
| "py_iter (JObject kvs) = Inr (map (\<lambda>kv. JString (fst kv)) kvs)"
| "py_iter (JString s) = Inr (map (\<lambda>c. JString [c]) s)"
| "py_iter v = Inl TypeError"

text \<open>\<^verbatim>\<open>sep.join(items)\<close> on strs.\<close>

fun join :: "string \<Rightarrow> string list \<Rightarrow> string" where
  "join sep [] = []"
| "join sep [x] = x"
| "join sep (x # y # ys) = x @ sep @ join sep (y # ys)"

text \<open>\<^verbatim>\<open>sep.join(items)\<close> on decoded values: an item that is not a str raises \<^verbatim>\<open>TypeError\<close>.\<close>

fun as_strs :: "json list \<Rightarrow> error + string list" where
  "as_strs [] = Inr []"
| "as_strs (JString s # vs) = (case as_strs vs of Inl e \<Rightarrow> Inl e | Inr ss \<Rightarrow> Inr (s # ss))"
| "as_strs (v # vs) = Inl TypeError"

definition py_join :: "string \<Rightarrow> json list \<Rightarrow> error + string" where
  "py_join sep items = (case as_strs items of Inl e \<Rightarrow> Inl e | Inr ss \<Rightarrow> Inr (join sep ss))"

section \<open>Content extraction\<close>

subsection \<open>\<^verbatim>\<open>MCPClient.text_from_content\<close> (mcp_smoke_test.py)\<close>

text \<open>
  \<^verbatim>\<open>
  text_parts = [part.get("text", "") for part in content if part.get("type") == "text"]
  return "\n".join([t for t in text_parts if t])
  \<close>
  The comprehension visits the parts in order; a part that is not a dict raises
  \<^verbatim>\<open>AttributeError\<close> at \<^verbatim>\<open>part.get\<close>.
\<close>

fun text_parts :: "json list \<Rightarrow> error + json list" where
  "text_parts [] = Inr []"
| "text_parts (part # rest) =
     (case py_get part ''type'' JNull of
        Inl e \<Rightarrow> Inl e
      | Inr ty \<Rightarrow>
          if py_eq_str ty ''text'' then
            (case py_get part ''text'' (JString []) of
               Inl e \<Rightarrow> Inl e
             | Inr t \<Rightarrow> (case text_parts rest of Inl e \<Rightarrow> Inl e | Inr ts \<Rightarrow> Inr (t # ts)))
          else text_parts rest)"

definition text_from_content :: "json \<Rightarrow> error + string" where
  "text_from_content content =
     (case py_iter content of
        Inl e \<Rightarrow> Inl e
      | Inr parts \<Rightarrow>
          (case text_parts parts of
             Inl e \<Rightarrow> Inl e
           | Inr ts \<Rightarrow> py_join [CHR 0x0A] (filter truthy ts)))"

subsection \<open>\<^verbatim>\<open>parse_png_size_from_image_content\<close> (mcp_phone_playability.py)\<close>

type_synonym byte = "8 word"

text \<open>\<^verbatim>\<open>PNG_SIGNATURE = b"\x89PNG\r\n\x1a\n"\<close>\<close>

definition PNG_SIGNATURE :: "byte list" where
  "PNG_SIGNATURE = [0x89, 0x50, 0x4E, 0x47, 0x0D, 0x0A, 0x1A, 0x0A]"

text \<open>A big-endian unsigned integer, as \<^verbatim>\<open>struct\<close>'s \<^verbatim>\<open>>I\<close> reads four bytes.\<close>

definition be_uint :: "byte list \<Rightarrow> int" where
  "be_uint bs = foldl (\<lambda>acc b. acc * 256 + uint b) 0 bs"

text \<open>
  \<^verbatim>\<open>struct.unpack(">II", buf)\<close>: the buffer must hold exactly 8 bytes
  (\<^verbatim>\<open>struct.error\<close> otherwise).
\<close>

definition unpack_II :: "byte list \<Rightarrow> error + (int \<times> int)" where
  "unpack_II buf =
     (if length buf \<noteq> 8 then Inl StructError
      else Inr (be_uint (take 4 buf), be_uint (drop 4 buf)))"

text \<open>\<^verbatim>\<open>raw[i:j]\<close> for \<open>0 \<le> i \<le> j\<close>: a slice never raises, it is cut at the end of the buffer.\<close>

definition py_slice :: "'a list \<Rightarrow> nat \<Rightarrow> nat \<Rightarrow> 'a list" where
  "py_slice xs i j = take (j - i) (drop i xs)"

text \<open>
  The loop \<^verbatim>\<open>for part in content: if part.get("type") == "image": image_part = part; break\<close>.
\<close>

fun find_image_part :: "json list \<Rightarrow> error + json option" where
  "find_image_part [] = Inr None"
| "find_image_part (part # rest) =
     (case py_get part ''type'' JNull of
        Inl e \<Rightarrow> Inl e
      | Inr ty \<Rightarrow> if py_eq_str ty ''image'' then Inr (Some part) else find_image_part rest)"

text \<open>
  \<^verbatim>\<open>base64.b64decode\<close> is the standard library's; the model takes it as the parameter
  \<open>b64decode\<close>, from the text of the payload to the decoded bytes or the error it raises.
  Given anything but a str (or bytes, which JSON cannot carry) it raises \<^verbatim>\<open>TypeError\<close>.
\<close>

definition py_b64decode :: "(string \<Rightarrow> error + byte list) \<Rightarrow> json \<Rightarrow> error + byte list" where
  "py_b64decode b64decode v = (case v of JString s \<Rightarrow> b64decode s | _ \<Rightarrow> Inl TypeError)"

definition parse_png_size_from_image_content ::
  "(string \<Rightarrow> error + byte list) \<Rightarrow> json \<Rightarrow> error + (int \<times> int)" where
  "parse_png_size_from_image_content b64decode content =
     (case py_iter content of
        Inl e \<Rightarrow> Inl e
      | Inr parts \<Rightarrow>
     (case find_image_part parts of
        Inl e \<Rightarrow> Inl e
      | Inr None \<Rightarrow> Inl (MCPError ''No image content returned'')
      | Inr (Some image_part) \<Rightarrow>
     (case py_get image_part ''data'' (JString []) of
        Inl e \<Rightarrow> Inl e
      | Inr data_b64 \<Rightarrow>
          if \<not> truthy data_b64 then Inl (MCPError ''Image content missing base64 payload'')
          else
     (case py_b64decode b64decode data_b64 of
        Inl e \<Rightarrow> Inl e
      | Inr raw \<Rightarrow>
          if length raw < 24 \<or> py_slice raw 0 8 \<noteq> PNG_SIGNATURE
          then Inl (MCPError ''Screenshot payload is not a valid PNG'')
          else unpack_II (py_slice raw 16 24)))))"

section \<open>Strings\<close>

text \<open>
  \<^verbatim>\<open>str.isspace\<close> on the code points below 256: tab to carriage return, the four
  separators 0x1C to 0x1F, space, NEL and the no-break space.
\<close>

definition is_space :: "char \<Rightarrow> bool" where
  "is_space c =
     (let n = (of_char c :: nat)
      in (9 \<le> n \<and> n \<le> 13) \<or> (28 \<le> n \<and> n \<le> 32) \<or> n = 133 \<or> n = 160)"

text \<open>\<^verbatim>\<open>s.rstrip()\<close>, \<^verbatim>\<open>s.strip()\<close> and \<^verbatim>\<open>s.rstrip("\n")\<close>.\<close>

definition rstrip :: "string \<Rightarrow> string" where
  "rstrip s = rev (dropWhile is_space (rev s))"

definition strip :: "string \<Rightarrow> string" where
  "strip s = rstrip (dropWhile is_space s)"

definition rstrip_nl :: "string \<Rightarrow> string" where
  "rstrip_nl s = rev (dropWhile (\<lambda>c. c = CHR 0x0A) (rev s))"

text \<open>\<^verbatim>\<open>str(n)\<close> for an int, and for the \<^verbatim>\<open>int | None\<close> that \<^verbatim>\<open>poll()\<close> returns.\<close>

fun digits :: "nat \<Rightarrow> string" where
  "digits n =
     (if n < 10 then [char_of (48 + n)]
      else digits (n div 10) @ [char_of (48 + n mod 10)])"

definition str_int :: "int \<Rightarrow> string" where
  "str_int i = (if i < 0 then CHR ''-'' # digits (nat (- i)) else digits (nat i))"

definition str_code :: "int option \<Rightarrow> string" where
  "str_code code = (case code of None \<Rightarrow> ''None'' | Some i \<Rightarrow> str_int i)"

section \<open>The client: \<^verbatim>\<open>class MCPClient\<close> (mcp_smoke_test.py)\<close>

text \<open>
  \<^verbatim>\<open>collections.deque(maxlen=n).append(x)\<close>: the item goes to the right end, and when the
  deque then holds more than \<open>maxlen\<close> items one is dropped from the left end.
\<close>

definition deque_append :: "nat \<Rightarrow> 'a list \<Rightarrow> 'a \<Rightarrow> 'a list" where
  "deque_append maxlen d x = (let d' = d @ [x] in if length d' > maxlen then tl d' else d')"

text \<open>
  What arrives on the pipe of \<^verbatim>\<open>process.stdout\<close>, one piece for each character: a character
  as the text wrapper decodes it (newlines translated), a byte the decoder rejects, or the
  end of file (the child has closed its end; it stays at the head of the stream).
\<close>

datatype piece = Chr char | Bad | Eof

text \<open>
  How the child process dies: \<open>sigterm_exit\<close> is its answer to \<^verbatim>\<open>terminate()\<close> (it exits
  after the given time with the given status, or ignores the signal), \<open>sigkill_delay\<close> the
  time a \<^verbatim>\<open>kill()\<close> takes to end it, \<open>own_exit\<close> the time and status of an exit of its own.
\<close>

record child =
  sigterm_exit :: "(int \<times> int) option"
  sigkill_delay :: int
  own_exit :: "(int \<times> int) option"

text \<open>
  The state of one client, with the child process and the clock it reads.
  \<^item> \<open>server_cmd\<close>, \<open>request_timeout\<close>, \<open>verbose\<close>, \<open>next_id\<close>, \<open>stderr_lines\<close> are the
    attributes of the object (\<^verbatim>\<open>_next_id\<close>, \<^verbatim>\<open>_stderr_lines\<close>).
  \<^item> \<open>stdin\<close> is \<^verbatim>\<open>process.stdin\<close>: \<open>None\<close> when the attribute is \<^verbatim>\<open>None\<close>, else the
    payloads written so far, each standing for the line \<^verbatim>\<open>json.dumps(payload) + "\n"\<close>.
  \<^item> \<open>stdout\<close> is the pipe under \<^verbatim>\<open>process.stdout\<close>: the pieces the child writes that the
    client has not read from the file descriptor yet, each with the time it arrives. After
    the last piece the pipe is silent. \<open>stdout_buf\<close> is the text the wrapper has read from
    the descriptor and not yet returned: \<^verbatim>\<open>readline\<close> serves from it, \<^verbatim>\<open>select\<close> does not
    see it.
  \<^item> \<open>stderr\<close> is \<^verbatim>\<open>process.stderr\<close>, the lines \<^verbatim>\<open>readline\<close> returns there.
  \<^item> \<open>exit_status\<close> is \<^verbatim>\<open>process.returncode\<close>: \<open>None\<close> until \<^verbatim>\<open>poll\<close> or \<^verbatim>\<open>wait\<close> has seen the
    child exit. \<open>dying\<close> is the time and status of the exit the child is heading for, from
    its own exit and the signals sent so far; \<open>proc\<close> describes the child.
  \<^item> \<open>now\<close> is \<^verbatim>\<open>time.monotonic()\<close>, and \<open>printed\<close> the lines the client printed.
  Time is counted in whole milliseconds (the source has float seconds: \<^verbatim>\<open>0.2\<close> is 200,
  \<^verbatim>\<open>5\<close> is 5000), and passes only while the client waits in \<^verbatim>\<open>select\<close>, in a read of the
  pipe or in \<^verbatim>\<open>wait\<close>.
\<close>

record client =
  server_cmd :: string
  request_timeout :: int
  verbose :: bool
  next_id :: int
  stderr_lines :: "string list"
  stdin :: "json list option"
  stdout :: "(int \<times> piece) list option"
  stdout_buf :: string
  stderr :: "string list option"
  exit_status :: "int option"
  dying :: "(int \<times> int) option"
  proc :: child
  now :: int
  printed :: "string list"

text \<open>
  \<^verbatim>\<open>MCPClient.__init__\<close>: the counter starts at 1 and the diagnostic deque is empty; the
  child is spawned with three pipes. \<open>out\<close>, \<open>err\<close> and \<open>term\<close> describe the child, \<open>t0\<close>
  is the time of the call.
\<close>

definition MCPClient_init ::
  "string \<Rightarrow> int \<Rightarrow> bool \<Rightarrow> (int \<times> piece) list \<Rightarrow> string list \<Rightarrow> child \<Rightarrow> int \<Rightarrow> client" where
  "MCPClient_init cmd timeout verb out err term t0 =
     \<lparr>server_cmd = cmd, request_timeout = timeout, verbose = verb, next_id = 1,
      stderr_lines = [], stdin = Some [], stdout = Some out, stdout_buf = [],
      stderr = Some err, exit_status = None, dying = own_exit term, proc = term,
      now = t0, printed = []\<rparr>"

definition py_print :: "client \<Rightarrow> string \<Rightarrow> client" where
  "py_print st s = st\<lparr>printed := printed st @ [s]\<rparr>"

subsection \<open>\<^verbatim>\<open>_drain_stderr\<close> and \<^verbatim>\<open>stderr_tail\<close>\<close>

text \<open>
  \<^verbatim>\<open>
  while True:
      line = self.process.stderr.readline()
      if line == "": return
      with self._stderr_lock: self._stderr_lines.append(line.rstrip("\n"))
      if self.verbose: print(f"[mcp-stderr] {line.rstrip()}")
  \<close>
  The loop runs over the lines \<^verbatim>\<open>readline\<close> returns; the end of the list is end of file.
  The thread and its lock are not modelled: the loop is run as one sequence of appends.
\<close>

fun drain_loop :: "client \<Rightarrow> string list \<Rightarrow> client" where
  "drain_loop st [] = st\<lparr>stderr := Some []\<rparr>"
| "drain_loop st (line # rest) =
     (if line = [] then st\<lparr>stderr := Some (line # rest)\<rparr>
      else
        let st1 = st\<lparr>stderr_lines := deque_append 200 (stderr_lines st) (rstrip_nl line)\<rparr>;
            st2 = (if verbose st1 then py_print st1 (''[mcp-stderr] '' @ rstrip line) else st1)
        in drain_loop st2 rest)"

definition drain_stderr :: "client \<Rightarrow> error + client" where
  "drain_stderr st =
     (case stderr st of None \<Rightarrow> Inl AssertionError | Some ls \<Rightarrow> Inr (drain_loop st ls))"

definition stderr_tail :: "client \<Rightarrow> string" where
  "stderr_tail st = join [CHR 0x0A] (stderr_lines st)"

subsection \<open>\<^verbatim>\<open>_send\<close> and \<^verbatim>\<open>notify\<close>\<close>

text \<open>
  \<^verbatim>\<open>_send\<close> raises when \<^verbatim>\<open>process.stdin\<close> is \<^verbatim>\<open>None\<close>, and writes one line otherwise.
  A failure of the operating system's write (a broken pipe) is outside the model.
\<close>

definition send :: "client \<Rightarrow> json \<Rightarrow> error + client" where
  "send st payload =
     (case stdin st of
        None \<Rightarrow> Inl (MCPError ''MCP stdin is unavailable'')
      | Some written \<Rightarrow> Inr (st\<lparr>stdin := Some (written @ [payload])\<rparr>))"

text \<open>\<^verbatim>\<open>params or {}\<close> for \<^verbatim>\<open>params: dict | None\<close>.\<close>

definition params_or_empty :: "(string \<times> json) list option \<Rightarrow> json" where
  "params_or_empty params = (case params of None \<Rightarrow> JObject [] | Some kvs \<Rightarrow> JObject kvs)"

definition notify_payload :: "string \<Rightarrow> (string \<times> json) list option \<Rightarrow> json" where
  "notify_payload method params =
     JObject [(''jsonrpc'', JString ''2.0''), (''method'', JString method),
              (''params'', params_or_empty params)]"

definition notify :: "client \<Rightarrow> string \<Rightarrow> (string \<times> json) list option \<Rightarrow> error + client" where
  "notify st method params = send st (notify_payload method params)"

subsection \<open>The child process and \<^verbatim>\<open>stop\<close>\<close>

text \<open>
  \<^verbatim>\<open>process.poll()\<close>: the recorded status if there is one; else the status of the child if
  it has exited by now, which is then recorded; else \<^verbatim>\<open>None\<close>.
\<close>

definition poll :: "client \<Rightarrow> int option \<times> client" where
  "poll st =
     (case exit_status st of
        Some code \<Rightarrow> (Some code, st)
      | None \<Rightarrow>
          (case dying st of
             None \<Rightarrow> (None, st)
           | Some (t, code) \<Rightarrow>
               if t \<le> now st then (Some code, st\<lparr>exit_status := Some code\<rparr>) else (None, st)))"

text \<open>A signal that ends the child at time \<open>t\<close> with \<open>code\<close>, unless it exits earlier anyway.\<close>

definition schedule :: "int \<Rightarrow> int \<Rightarrow> client \<Rightarrow> client" where
  "schedule t code st =
     (case dying st of
        None \<Rightarrow> st\<lparr>dying := Some (t, code)\<rparr>
      | Some (t0, code0) \<Rightarrow> if t0 \<le> t then st else st\<lparr>dying := Some (t, code)\<rparr>)"

text \<open>
  \<^verbatim>\<open>process.terminate()\<close> and \<^verbatim>\<open>process.kill()\<close>: \<^verbatim>\<open>send_signal\<close> polls first and sends nothing
  to a child that has exited. Neither waits for the child.
\<close>

definition terminate :: "client \<Rightarrow> client" where
  "terminate st =
     (case poll st of
        (Some code, st1) \<Rightarrow> st1
      | (None, st1) \<Rightarrow>
          (case sigterm_exit (proc st1) of
             None \<Rightarrow> st1
           | Some (delay, code) \<Rightarrow> schedule (now st1 + max 0 delay) code st1))"

definition kill :: "client \<Rightarrow> client" where
  "kill st =
     (case poll st of
        (Some code, st1) \<Rightarrow> st1
      | (None, st1) \<Rightarrow> schedule (now st1 + max 0 (sigkill_delay (proc st1))) (- 9) st1)"

text \<open>
  \<^verbatim>\<open>process.wait(timeout)\<close>: returns (\<open>True\<close>) when the child has exited, recording its
  status; raises \<^verbatim>\<open>TimeoutExpired\<close> (\<open>False\<close>) when it has not exited after \<open>timeout\<close>.
\<close>

definition wait :: "client \<Rightarrow> int \<Rightarrow> bool \<times> client" where
  "wait st timeout =
     (case exit_status st of
        Some code \<Rightarrow> (True, st)
      | None \<Rightarrow>
          (case dying st of
             None \<Rightarrow> (False, st\<lparr>now := now st + timeout\<rparr>)
           | Some (t, code) \<Rightarrow>
               if t \<le> now st + timeout
               then (True, st\<lparr>exit_status := Some code, now := max (now st) t\<rparr>)
               else (False, st\<lparr>now := now st + timeout\<rparr>)))"

text \<open>
  \<^verbatim>\<open>
  if self.process.poll() is None:
      self.process.terminate()
      try: self.process.wait(timeout=5)
      except subprocess.TimeoutExpired: self.process.kill()
  \<close>
  Nothing waits for the child after \<^verbatim>\<open>kill()\<close>.
\<close>

definition stop :: "client \<Rightarrow> client" where
  "stop st =
     (case poll st of
        (Some code, st1) \<Rightarrow> st1
      | (None, st1) \<Rightarrow>
          (case wait (terminate st1) 5000 of
             (True, st3) \<Rightarrow> st3
           | (False, st3) \<Rightarrow> kill st3))"

subsection \<open>Reading the response stream\<close>

text \<open>The pieces not yet read from the file descriptor of \<^verbatim>\<open>process.stdout\<close>.\<close>

definition pending :: "client \<Rightarrow> (int \<times> piece) list" where
  "pending st = (case stdout st of None \<Rightarrow> [] | Some pieces \<Rightarrow> pieces)"

text \<open>
  \<^verbatim>\<open>select.select([self.process.stdout.fileno()], [], [], timeout)\<close> watches the file
  descriptor: ready as soon as a piece (or the end of file) is there, not ready after
  \<open>timeout\<close> when none is there by then. Text already in the wrapper's buffer does not
  make it ready.
\<close>

definition select_stdout :: "client \<Rightarrow> int \<Rightarrow> bool \<times> client" where
  "select_stdout st timeout =
     (case pending st of
        [] \<Rightarrow> (False, st\<lparr>now := now st + timeout\<rparr>)
      | (t, p) # rest \<Rightarrow>
          if t \<le> now st + timeout then (True, st\<lparr>now := max (now st) t\<rparr>)
          else (False, st\<lparr>now := now st + timeout\<rparr>))"

text \<open>The wrapper reads the descriptor in chunks of at most 8192 bytes.\<close>

definition CHUNK_SIZE :: int where
  "CHUNK_SIZE = 8192"

fun pieces_text :: "(int \<times> piece) list \<Rightarrow> string" where
  "pieces_text [] = []"
| "pieces_text ((t, Chr c) # ps) = c # pieces_text ps"
| "pieces_text ((t, p) # ps) = pieces_text ps"

text \<open>
  What a read of at most \<open>n\<close> bytes at time \<open>T\<close> takes from the pipe, and what it leaves:
  the pieces that have arrived, up to \<open>n\<close> of them and up to the end of file.
\<close>

fun split_chunk ::
  "int \<Rightarrow> int \<Rightarrow> (int \<times> piece) list \<Rightarrow> (int \<times> piece) list \<times> (int \<times> piece) list" where
  "split_chunk n T [] = ([], [])"
| "split_chunk n T (x # xs) =
     (if n \<le> 0 \<or> T < fst x \<or> snd x = Eof then ([], x # xs)
      else (case split_chunk (n - 1) T xs of (got, rest) \<Rightarrow> (x # got, rest)))"

text \<open>
  One read of the descriptor by the wrapper. It blocks until something is there, with no
  time limit: forever (\<open>Hang\<close>) on a silent pipe. At the end of file it returns \<open>None\<close>.
  Otherwise it takes what has arrived by then, up to the chunk size, and decodes it: the
  text (each character counted as one byte), or \<^verbatim>\<open>UnicodeDecodeError\<close> when a byte of the
  chunk is rejected, the chunk being lost.
\<close>

definition read_chunk :: "client \<Rightarrow> (error + string option) \<times> client" where
  "read_chunk st =
     (case pending st of
        [] \<Rightarrow> (Inl Hang, st)
      | (t, p) # rest \<Rightarrow>
          let st1 = st\<lparr>now := max (now st) t\<rparr> in
          if p = Eof then (Inr None, st1)
          else
            (case split_chunk CHUNK_SIZE (now st1) ((t, p) # rest) of (got, left) \<Rightarrow>
               let st2 = st1\<lparr>stdout := Some left\<rparr>
               in if list_ex (\<lambda>x. snd x = Bad) got then (Inl UnicodeDecodeError, st2)
                  else (Inr (Some (pieces_text got)), st2)))"

lemma split_chunk_append: "split_chunk n T xs = (got, left) \<Longrightarrow> xs = got @ left"
proof (induction n T xs arbitrary: got left rule: split_chunk.induct)
  case (1 n T)
  then show ?case by simp
next
  case (2 n T x xs)
  then show ?case by (auto split: if_splits prod.splits)
qed

lemma read_chunk_pending:
  "read_chunk st = (Inr (Some s), st1) \<Longrightarrow>
   length (pending st1) < length (pending st) \<and> length (pending st1) + length s \<le> length (pending st)
   \<and> stdout_buf st1 = stdout_buf st"
proof -
  have len: "length (pieces_text ps) \<le> length ps" for ps
    by (induction ps rule: pieces_text.induct) auto
  assume run: "read_chunk st = (Inr (Some s), st1)"
  then obtain t p rest where pend: "pending st = (t, p) # rest"
    by (cases "pending st") (auto simp: read_chunk_def)
  obtain got left where sp: "split_chunk CHUNK_SIZE (max (now st) t) ((t, p) # rest) = (got, left)"
    by (cases "split_chunk CHUNK_SIZE (max (now st) t) ((t, p) # rest)")
  from run pend sp have p: "p \<noteq> Eof" and s: "s = pieces_text got"
    and st1: "pending st1 = left" "stdout_buf st1 = stdout_buf st"
    by (auto simp: read_chunk_def Let_def pending_def split: if_splits)
  have g1: "0 < length got" using p sp by (auto simp: CHUNK_SIZE_def split: prod.splits)
  have g2: "length got + length left = Suc (length rest)"
    using split_chunk_append [OF sp] by (metis length_Cons length_append)
  from g1 obtain x gs where "got = x # gs" by (cases got) simp_all
  with g2 len [of got] show ?thesis by (simp add: pend s st1)
qed

text \<open>
  \<^verbatim>\<open>process.stdout.readline()\<close>: a line of the buffer up to and with its newline when the
  buffer holds one; else the wrapper reads the descriptor, again and again until a newline
  or the end of file comes, with no time limit. At the end of file it returns what the
  buffer holds, \<^verbatim>\<open>""\<close> when that is nothing.
\<close>

function readline_stdout :: "client \<Rightarrow> (error + string) \<times> client" where
  "readline_stdout st =
     (if CHR 0x0A \<in> set (stdout_buf st) then
        (Inr (takeWhile (\<lambda>c. c \<noteq> CHR 0x0A) (stdout_buf st) @ [CHR 0x0A]),
         st\<lparr>stdout_buf := tl (dropWhile (\<lambda>c. c \<noteq> CHR 0x0A) (stdout_buf st))\<rparr>)
      else
        (case read_chunk st of
           (Inl e, st1) \<Rightarrow> (Inl e, st1)
         | (Inr None, st1) \<Rightarrow> (Inr (stdout_buf st1), st1\<lparr>stdout_buf := []\<rparr>)
         | (Inr (Some s), st1) \<Rightarrow> readline_stdout (st1\<lparr>stdout_buf := stdout_buf st1 @ s\<rparr>)))"
  by pat_completeness auto
termination
proof (relation "measure (\<lambda>st. length (pending st))")
qed (auto simp: pending_def dest!: read_chunk_pending [OF sym])

declare readline_stdout.simps [simp del]

text \<open>What is still to be read: on the descriptor and in the buffer.\<close>

definition unread :: "client \<Rightarrow> nat" where
  "unread st = length (pending st) + length (stdout_buf st)"

lemma readline_unread:
  "readline_stdout st = (Inr line, st') \<Longrightarrow> unread st' + length line \<le> unread st"
proof (induction st arbitrary: line st' rule: readline_stdout.induct)
  case (1 st)
  show ?case
  proof (cases "CHR 0x0A \<in> set (stdout_buf st)")
    case True
    let ?P = "\<lambda>c. c \<noteq> CHR 0x0A"
    have "dropWhile ?P (stdout_buf st) \<noteq> []" using True by simp
    then obtain x xs where dw: "dropWhile ?P (stdout_buf st) = x # xs"
      by (cases "dropWhile ?P (stdout_buf st)") simp_all
    have lb: "length (stdout_buf st) = length (takeWhile ?P (stdout_buf st)) + Suc (length xs)"
      by (metis dw length_Cons length_append takeWhile_dropWhile_id)
    from "1.prems" True
    have "line = takeWhile ?P (stdout_buf st) @ [CHR 0x0A]" "st' = st\<lparr>stdout_buf := xs\<rparr>"
      by (subst (asm) readline_stdout.simps, simp add: dw)+
    then show ?thesis
      by (simp add: unread_def pending_def lb)
  next
    case False
    obtain r st1 where rc: "read_chunk st = (r, st1)" by (cases "read_chunk st")
    show ?thesis
    proof (cases r)
      case (Inl e)
      with "1.prems" False rc show ?thesis
        by (subst (asm) readline_stdout.simps) simp
    next
      case (Inr chunk)
      show ?thesis
      proof (cases chunk)
        case None
        with "1.prems" False rc Inr have "line = stdout_buf st1" "st' = st1\<lparr>stdout_buf := []\<rparr>"
          by (subst (asm) readline_stdout.simps, simp)+
        moreover from rc Inr None have "pending st1 = pending st" "stdout_buf st1 = stdout_buf st"
          by (auto simp: read_chunk_def Let_def pending_def split: list.splits if_splits prod.splits)
        ultimately show ?thesis by (simp add: unread_def pending_def)
      next
        case (Some s)
        let ?st2 = "st1\<lparr>stdout_buf := stdout_buf st1 @ s\<rparr>"
        from "1.prems" False rc Inr Some have run: "readline_stdout ?st2 = (Inr line, st')"
          by (subst (asm) readline_stdout.simps) simp
        from rc Inr Some have rc': "(Inr (Some s), st1) = read_chunk st" by simp
        from "1.IH" [OF False rc' refl refl run]
        have "unread st' + length line \<le> unread ?st2" .
        moreover have "unread ?st2 \<le> unread st"
          using read_chunk_pending [of st s st1] rc Inr Some by (simp add: unread_def pending_def)
        ultimately show ?thesis by simp
      qed
    qed
  qed
qed

lemma readline_less:
  "readline_stdout st = (Inr line, st') \<Longrightarrow> line \<noteq> [] \<Longrightarrow> unread st' < unread st"
  using readline_unread [of st line st'] by (cases line) simp_all

lemma select_effect:
  "select_stdout st t = (r, st1) \<Longrightarrow>
   unread st1 = unread st \<and> stdout_buf st1 = stdout_buf st \<and> pending st1 = pending st
   \<and> (\<not> r \<longrightarrow> now st1 = now st + t)"
  by (auto simp: select_stdout_def unread_def pending_def split: list.splits if_splits)

lemma unread_print: "unread (py_print st s) = unread st"
  by (simp add: py_print_def unread_def pending_def)

text \<open>
  \<^verbatim>\<open>json.loads\<close> is the standard library's; the model takes it as the parameter \<open>loads\<close>,
  which returns the decoded value or the exception \<^verbatim>\<open>json.loads\<close> raises:
  \<^verbatim>\<open>JSONDecodeError\<close> on text that is not JSON, and others (\<^verbatim>\<open>RecursionError\<close> on nesting that
  is too deep). \<^verbatim>\<open>_read_message\<close> catches \<^verbatim>\<open>json.JSONDecodeError\<close> only, around \<^verbatim>\<open>json.loads\<close>
  only.
\<close>

text \<open>
  The \<^verbatim>\<open>while True\<close> loop of \<^verbatim>\<open>_read_message\<close>, for the deadline computed before it.
\<close>

function read_loop :: "(string \<Rightarrow> error + json) \<Rightarrow> client \<Rightarrow> int \<Rightarrow> (error + json) \<times> client" where
  "read_loop loads st deadline =
     (let remaining = deadline - now st in
      if remaining \<le> 0 then (Inl (MCPError ''Timed out waiting for MCP response''), st)
      else
        (case select_stdout st (min 200 remaining) of (ready, st1) \<Rightarrow>
           if \<not> ready then read_loop loads st1 deadline
           else
             (case readline_stdout st1 of
                (Inl e, st2) \<Rightarrow> (Inl e, st2)
              | (Inr line, st2) \<Rightarrow>
                  if line = [] then
                    (case poll st2 of (code, st3) \<Rightarrow>
                       (Inl (MCPError (''MCP server exited unexpectedly (code=''
                                         @ str_code code @ '')'')), st3))
                  else if strip line = [] then read_loop loads st2 deadline
                  else
                    (case loads (strip line) of
                       Inl e \<Rightarrow>
                         if e = JSONDecodeError then
                           read_loop loads
                             (if verbose st2
                              then py_print st2
                                     (''[mcp-stdout] Non-JSON line ignored: '' @ strip line)
                              else st2)
                             deadline
                         else (Inl e, st2)
                     | Inr message \<Rightarrow>
                         if verbose st2 then
                           (case py_in ''id'' message of
                              Inl e \<Rightarrow> (Inl e, st2)
                            | Inr has_id \<Rightarrow>
                                (Inr message,
                                 if has_id then st2
                                 else py_print st2 (''[mcp-notify] '' @ strip line)))
                         else (Inr message, st2)))))"
  by pat_completeness auto
termination
proof (relation "measures [\<lambda>(loads, st, deadline). unread st,
                           \<lambda>(loads, st, deadline). nat (deadline - now st)]")
qed (auto simp: unread_print
       dest!: select_effect [OF sym] readline_less [OF sym])

definition read_message :: "(string \<Rightarrow> error + json) \<Rightarrow> client \<Rightarrow> int \<Rightarrow> (error + json) \<times> client" where
  "read_message loads st timeout =
     (if stdout st = None then (Inl (MCPError ''MCP stdout is unavailable''), st)
      else read_loop loads st (now st + timeout))"

declare read_loop.simps [simp del]

text \<open>
  The part of the state that reading from the response stream leaves alone: everything
  but the stream and its buffer, the clock, the printed lines and the recorded exit
  status (\<^verbatim>\<open>poll\<close> is called at the end of file).
\<close>

definition session_fields ::
  "client \<Rightarrow> string \<times> int \<times> bool \<times> int \<times> string list \<times> json list option \<times> string list option
     \<times> (int \<times> int) option \<times> child" where
  "session_fields st =
     (server_cmd st, request_timeout st, verbose st, next_id st, stderr_lines st, stdin st,
      stderr st, dying st, proc st)"

text \<open>
  One lemma for each way through one iteration of the loop, and what a run of the loop
  does to the state: in particular a message is returned only after a line was consumed,
  by which the loop of \<^verbatim>\<open>request\<close> terminates.
\<close>

lemma read_loop_expired:
  "deadline - now st \<le> 0 \<Longrightarrow>
   read_loop loads st deadline = (Inl (MCPError ''Timed out waiting for MCP response''), st)"
  by (subst read_loop.simps) (simp add: Let_def)

lemma read_loop_not_ready:
  "\<not> deadline - now st \<le> 0 \<Longrightarrow>
   select_stdout st (min 200 (deadline - now st)) = (False, st1) \<Longrightarrow>
   read_loop loads st deadline = read_loop loads st1 deadline"
  by (subst read_loop.simps) (simp add: Let_def)

lemma read_loop_read_error:
  "\<not> deadline - now st \<le> 0 \<Longrightarrow>
   select_stdout st (min 200 (deadline - now st)) = (True, st1) \<Longrightarrow>
   readline_stdout st1 = (Inl e, st2) \<Longrightarrow>
   read_loop loads st deadline = (Inl e, st2)"
  by (subst read_loop.simps) (simp add: Let_def)

lemma read_loop_eof:
  "\<not> deadline - now st \<le> 0 \<Longrightarrow>
   select_stdout st (min 200 (deadline - now st)) = (True, st1) \<Longrightarrow>
   readline_stdout st1 = (Inr [], st2) \<Longrightarrow> poll st2 = (code, st3) \<Longrightarrow>
   read_loop loads st deadline =
     (Inl (MCPError (''MCP server exited unexpectedly (code='' @ str_code code @ '')'')), st3)"
  by (subst read_loop.simps) (simp add: Let_def)

lemma read_loop_blank:
  "\<not> deadline - now st \<le> 0 \<Longrightarrow>
   select_stdout st (min 200 (deadline - now st)) = (True, st1) \<Longrightarrow>
   readline_stdout st1 = (Inr line, st2) \<Longrightarrow> line \<noteq> [] \<Longrightarrow> strip line = [] \<Longrightarrow>
   read_loop loads st deadline = read_loop loads st2 deadline"
  by (subst read_loop.simps) (simp add: Let_def)

lemma read_loop_non_json:
  "\<not> deadline - now st \<le> 0 \<Longrightarrow>
   select_stdout st (min 200 (deadline - now st)) = (True, st1) \<Longrightarrow>
   readline_stdout st1 = (Inr line, st2) \<Longrightarrow> line \<noteq> [] \<Longrightarrow> strip line \<noteq> [] \<Longrightarrow>
   loads (strip line) = Inl JSONDecodeError \<Longrightarrow>
   read_loop loads st deadline =
     read_loop loads
       (if verbose st2
        then py_print st2 (''[mcp-stdout] Non-JSON line ignored: '' @ strip line)
        else st2) deadline"
  by (subst read_loop.simps) (simp add: Let_def)

lemma read_loop_loads_error:
  "\<not> deadline - now st \<le> 0 \<Longrightarrow>
   select_stdout st (min 200 (deadline - now st)) = (True, st1) \<Longrightarrow>
   readline_stdout st1 = (Inr line, st2) \<Longrightarrow> line \<noteq> [] \<Longrightarrow> strip line \<noteq> [] \<Longrightarrow>
   loads (strip line) = Inl e \<Longrightarrow> e \<noteq> JSONDecodeError \<Longrightarrow>
   read_loop loads st deadline = (Inl e, st2)"
  by (subst read_loop.simps) (simp add: Let_def)

lemma read_loop_message:
  "\<not> deadline - now st \<le> 0 \<Longrightarrow>
   select_stdout st (min 200 (deadline - now st)) = (True, st1) \<Longrightarrow>
   readline_stdout st1 = (Inr line, st2) \<Longrightarrow> line \<noteq> [] \<Longrightarrow> strip line \<noteq> [] \<Longrightarrow>
   loads (strip line) = Inr message \<Longrightarrow>
   read_loop loads st deadline =
     (if verbose st2 then
        (case py_in ''id'' message of
           Inl e \<Rightarrow> (Inl e, st2)
         | Inr has_id \<Rightarrow>
             (Inr message,
              if has_id then st2 else py_print st2 (''[mcp-notify] '' @ strip line)))
      else (Inr message, st2))"
  by (subst read_loop.simps) (simp add: Let_def)

lemma session_select: "select_stdout st t = (r, st1) \<Longrightarrow> session_fields st1 = session_fields st"
  by (auto simp: select_stdout_def session_fields_def split: list.splits if_splits)

lemma session_print: "session_fields (py_print st s) = session_fields st"
  by (simp add: py_print_def session_fields_def)

lemma session_poll: "poll st = (code, st1) \<Longrightarrow> session_fields st1 = session_fields st"
  by (auto simp: poll_def session_fields_def split: option.splits if_splits)

lemma read_chunk_effect:
  "read_chunk st = (r, st1) \<Longrightarrow>
   session_fields st1 = session_fields st \<and> r \<noteq> Inl JSONDecodeError"
  by (auto simp: read_chunk_def Let_def session_fields_def split: list.splits if_splits prod.splits)

lemma readline_effect:
  "readline_stdout st = (r, st') \<Longrightarrow>
   session_fields st' = session_fields st \<and> r \<noteq> Inl JSONDecodeError"
proof (induction st arbitrary: r st' rule: readline_stdout.induct)
  case (1 st)
  show ?case
  proof (cases "CHR 0x0A \<in> set (stdout_buf st)")
    case True
    with "1.prems" show ?thesis
      by (subst (asm) readline_stdout.simps) (auto simp: session_fields_def)
  next
    case False
    obtain r1 st1 where rc: "read_chunk st = (r1, st1)" by (cases "read_chunk st")
    note eff = read_chunk_effect [OF rc]
    show ?thesis
    proof (cases r1)
      case (Inl e)
      with "1.prems" False rc eff show ?thesis
        by (subst (asm) readline_stdout.simps) auto
    next
      case (Inr chunk)
      show ?thesis
      proof (cases chunk)
        case None
        with "1.prems" False rc Inr eff show ?thesis
          by (subst (asm) readline_stdout.simps) (auto simp: session_fields_def)
      next
        case (Some s)
        let ?st2 = "st1\<lparr>stdout_buf := stdout_buf st1 @ s\<rparr>"
        from "1.prems" False rc Inr Some have run: "readline_stdout ?st2 = (r, st')"
          by (subst (asm) readline_stdout.simps) simp
        from rc Inr Some have rc': "(Inr (Some s), st1) = read_chunk st" by simp
        from "1.IH" [OF False rc' refl refl run] eff show ?thesis
          by (simp add: session_fields_def)
      qed
    qed
  qed
qed

lemma read_loop_effect:
  "read_loop loads st deadline = (r, st') \<Longrightarrow>
   session_fields st' = session_fields st \<and> r \<noteq> Inl JSONDecodeError \<and>
   (\<forall>msg. r = Inr msg \<longrightarrow> unread st' < unread st \<and> (\<exists>s. s \<noteq> [] \<and> loads s = Inr msg))"
proof (induction loads st deadline arbitrary: r st' rule: read_loop.induct)
  case (1 loads st deadline)
  obtain ready st1 where sel: "select_stdout st (min 200 (deadline - now st)) = (ready, st1)"
    by (cases "select_stdout st (min 200 (deadline - now st))")
  obtain rl st2 where rl: "readline_stdout st1 = (rl, st2)"
    by (cases "readline_stdout st1")
  have u1: "unread st1 = unread st" using select_effect [OF sel] by simp
  have s1: "session_fields st1 = session_fields st" using sel by (rule session_select)
  have s2: "session_fields st2 = session_fields st" using readline_effect [OF rl] s1 by simp
  show ?case
  proof (cases "deadline - now st \<le> 0")
    case True
    with "1.prems" show ?thesis by (auto simp: read_loop_expired)
  next
    case rem: False
    show ?thesis
    proof (cases ready)
      case False
      with "1.prems" sel rem have run: "read_loop loads st1 deadline = (r, st')"
        by (simp add: read_loop_not_ready)
      from "1.IH"(1) [OF refl rem sel [symmetric] _ run] False u1 s1 show ?thesis by simp
    next
      case True
      have sel': "select_stdout st (min 200 (deadline - now st)) = (True, st1)"
        using sel True by simp
      show ?thesis
      proof (cases rl)
        case (Inl e)
        with "1.prems" read_loop_read_error [where loads = loads, OF rem sel'] rl s2
          readline_effect [OF rl]
        show ?thesis by auto
      next
        case rline: (Inr line)
        note rl' = rl [unfolded rline]
        show ?thesis
        proof (cases "line = []")
          case eof: True
          obtain code st3 where po: "poll st2 = (code, st3)" by (cases "poll st2")
          from "1.prems" read_loop_eof [where loads = loads, OF rem sel' rl' [unfolded eof] po]
            session_poll [OF po] s2
          show ?thesis by auto
        next
          case ne: False
          have u2: "unread st2 < unread st" using readline_less [OF rl' ne] u1 by simp
          show ?thesis
          proof (cases "strip line = []")
            case blank: True
            have run: "read_loop loads st2 deadline = (r, st')"
              using "1.prems" read_loop_blank [where loads = loads, OF rem sel' rl' ne blank] by simp
            from "1.IH"(2) [OF refl rem sel [symmetric] _ rl [symmetric] rline ne blank run] True s2 u2
            show ?thesis by auto
          next
            case nonblank: False
            show ?thesis
            proof (cases "loads (strip line)")
              case err: (Inl e)
              show ?thesis
              proof (cases "e = JSONDecodeError")
                case caught: True
                let ?st3 = "if verbose st2
                  then py_print st2 (''[mcp-stdout] Non-JSON line ignored: '' @ strip line)
                  else st2"
                have run: "read_loop loads ?st3 deadline = (r, st')"
                  using "1.prems"
                    read_loop_non_json [where loads = loads, OF rem sel' rl' ne nonblank
                      err [unfolded caught]]
                  by simp
                have u3: "unread ?st3 = unread st2" by (simp add: unread_print)
                have s3: "session_fields ?st3 = session_fields st" using s2 by (simp add: session_print)
                from "1.IH"(3) [OF refl rem sel [symmetric] _ rl [symmetric] rline ne nonblank err caught run]
                  True s3 u3 u2
                show ?thesis by auto
              next
                case other: False
                from "1.prems"
                  read_loop_loads_error [where loads = loads, OF rem sel' rl' ne nonblank err other]
                  s2 other
                show ?thesis by auto
              qed
            next
              case (Inr message)
              note eq = read_loop_message [where loads = loads, OF rem sel' rl' ne nonblank Inr]
              have a: "session_fields st' = session_fields st"
                using "1.prems" eq s2 by (auto simp: session_print split: if_splits sum.splits)
              have b: "r \<noteq> Inl JSONDecodeError"
              proof (cases "py_in ''id'' message")
                case (Inl e)
                then have "e = TypeError" by (cases message) auto
                with "1.prems" eq Inl show ?thesis by (auto split: if_splits)
              next
                case (Inr has_id)
                with "1.prems" eq show ?thesis by (auto split: if_splits)
              qed
              have c: "unread st' = unread st2 \<and> msg = message" if "r = Inr msg" for msg
                using "1.prems" eq that by (auto simp: unread_print split: if_splits sum.splits)
              from a b c u2 nonblank Inr show ?thesis by auto
            qed
          qed
        qed
      qed
    qed
  qed
qed

lemma read_message_effect:
  "read_message loads st timeout = (r, st') \<Longrightarrow>
   session_fields st' = session_fields st \<and> r \<noteq> Inl JSONDecodeError \<and>
   (\<forall>msg. r = Inr msg \<longrightarrow> unread st' < unread st \<and> (\<exists>s. s \<noteq> [] \<and> loads s = Inr msg))"
  by (cases "stdout st = None") (auto simp: read_message_def dest: read_loop_effect)

subsection \<open>\<^verbatim>\<open>request\<close>\<close>

text \<open>
  The \<^verbatim>\<open>while True\<close> loop of \<^verbatim>\<open>request\<close>:
  \<^verbatim>\<open>
  elapsed = time.monotonic() - started
  remaining = limit - elapsed
  if remaining <= 0: raise MCPError(f"Timed out waiting for response to {method}")
  msg = self._read_message(timeout=remaining)
  if msg.get("id") == request_id: return msg
  \<close>
\<close>

function request_loop ::
  "(string \<Rightarrow> error + json) \<Rightarrow> client \<Rightarrow> int \<Rightarrow> string \<Rightarrow> int \<Rightarrow> int \<Rightarrow> (error + json) \<times> client" where
  "request_loop loads st request_id method started limit =
     (let elapsed = now st - started; remaining = limit - elapsed in
      if remaining \<le> 0
      then (Inl (MCPError (''Timed out waiting for response to '' @ method)), st)
      else
        (case read_message loads st remaining of
           (Inl e, st1) \<Rightarrow> (Inl e, st1)
         | (Inr msg, st1) \<Rightarrow>
             (case py_get msg ''id'' JNull of
                Inl e \<Rightarrow> (Inl e, st1)
              | Inr v \<Rightarrow>
                  if py_eq_int v request_id then (Inr msg, st1)
                  else request_loop loads st1 request_id method started limit)))"
  by pat_completeness auto
termination
proof (relation "measure (\<lambda>(loads, st, request_id, method, started, limit). unread st)")
qed (auto dest: read_message_effect [OF sym])

declare request_loop.simps [simp del]

definition request_payload :: "int \<Rightarrow> string \<Rightarrow> (string \<times> json) list option \<Rightarrow> json" where
  "request_payload request_id method params =
     JObject [(''jsonrpc'', JString ''2.0''), (''id'', JInt request_id),
              (''method'', JString method), (''params'', params_or_empty params)]"

text \<open>
  \<^verbatim>\<open>request\<close>: the id is taken and the counter incremented before \<^verbatim>\<open>_send\<close>, so a failed
  send has used its id too. \<open>timeout\<close> is \<open>None\<close> for the default \<^verbatim>\<open>self.request_timeout\<close>.
\<close>

definition request ::
  "(string \<Rightarrow> error + json) \<Rightarrow> client \<Rightarrow> string \<Rightarrow> (string \<times> json) list option \<Rightarrow> int option
     \<Rightarrow> (error + json) \<times> client" where
  "request loads st method params timeout =
     (let request_id = next_id st;
          st1 = st\<lparr>next_id := next_id st + 1\<rparr>
      in case send st1 (request_payload request_id method params) of
           Inl e \<Rightarrow> (Inl e, st1)
         | Inr st2 \<Rightarrow>
             let started = now st2;
                 limit = (case timeout of Some t \<Rightarrow> t | None \<Rightarrow> request_timeout st2)
             in request_loop loads st2 request_id method started limit)"

subsection \<open>\<^verbatim>\<open>call_tool\<close>\<close>

text \<open>\<^verbatim>\<open>v[k]\<close> for a str \<open>k\<close>: only a dict can be indexed by a str.\<close>

fun py_getitem :: "json \<Rightarrow> string \<Rightarrow> error + json" where
  "py_getitem (JObject kvs) k = (case map_of kvs k of None \<Rightarrow> Inl KeyError | Some v \<Rightarrow> Inr v)"
| "py_getitem v k = Inl TypeError"

text \<open>
  \<open>py_str\<close> is Python's \<^verbatim>\<open>str()\<close> on a decoded value (the f-string formats
  \<^verbatim>\<open>response['error']\<close> with it), taken as a parameter.
\<close>

definition call_tool ::
  "(string \<Rightarrow> error + json) \<Rightarrow> (json \<Rightarrow> string) \<Rightarrow> client \<Rightarrow> string \<Rightarrow> (string \<times> json) list
     \<Rightarrow> int option \<Rightarrow> (error + json) \<times> client" where
  "call_tool loads py_str st name arguments timeout =
     (case request loads st ''tools/call''
             (Some [(''name'', JString name), (''arguments'', JObject arguments)]) timeout of
        (Inl e, st1) \<Rightarrow> (Inl e, st1)
      | (Inr response, st1) \<Rightarrow>
     (case py_in ''error'' response of
        Inl e \<Rightarrow> (Inl e, st1)
      | Inr has_error \<Rightarrow>
          if has_error then
            (case py_getitem response ''error'' of
               Inl e \<Rightarrow> (Inl e, st1)
             | Inr err \<Rightarrow>
                 (Inl (MCPError (''tools/call '' @ name @ '' failed: '' @ py_str err)), st1))
          else
     (case py_get response ''result'' (JObject []) of
        Inl e \<Rightarrow> (Inl e, st1)
      | Inr result \<Rightarrow>
     (case py_get result ''isError'' (JBool False) of
        Inl e \<Rightarrow> (Inl e, st1)
      | Inr is_error \<Rightarrow>
          if truthy is_error then
            (case py_get result ''content'' (JArray []) of
               Inl e \<Rightarrow> (Inl e, st1)
             | Inr content \<Rightarrow>
                 (case text_from_content content of
                    Inl e \<Rightarrow> (Inl e, st1)
                  | Inr text \<Rightarrow>
                      (Inl (MCPError (''Tool '' @ [CHR 0x27] @ name @ [CHR 0x27]
                                        @ '' returned error: '' @ text)), st1)))
          else
            (case py_get result ''content'' (JArray []) of
               Inl e \<Rightarrow> (Inl e, st1)
             | Inr content \<Rightarrow> (Inr content, st1))))))"

section \<open>The spec's data model of a tool result, and drivers for sequences of calls\<close>

text \<open>
  The spec types a tool result as a sequence of parts, each a text part
  \<^verbatim>\<open>{type: text, text: string}\<close> or an image part \<^verbatim>\<open>{type: image, data, mime}\<close> whose data
  may be absent. \<open>part_json\<close> is the dict a part arrives as, \<open>content_json\<close> the list.
\<close>

datatype part = TextPart string | ImagePart "string option" string

fun part_json :: "part \<Rightarrow> json" where
  "part_json (TextPart t) = JObject [(''type'', JString ''text''), (''text'', JString t)]"
| "part_json (ImagePart None mime) =
     JObject [(''type'', JString ''image''), (''mimeType'', JString mime)]"
| "part_json (ImagePart (Some d) mime) =
     JObject [(''type'', JString ''image''), (''data'', JString d), (''mimeType'', JString mime)]"

definition content_json :: "part list \<Rightarrow> json" where
  "content_json ps = JArray (map part_json ps)"

text \<open>The texts of the text parts, in order.\<close>

fun texts_of :: "part list \<Rightarrow> string list" where
  "texts_of [] = []"
| "texts_of (TextPart t # ps) = t # texts_of ps"
| "texts_of (ImagePart d mime # ps) = texts_of ps"

text \<open>
  \<open>textOf\<close> in the spec's words: all text parts concatenated with newline separators,
  the other parts skipped.
\<close>

definition textOf_spec :: "part list \<Rightarrow> string" where
  "textOf_spec ps = join [CHR 0x0A] (texts_of ps)"

text \<open>\<^verbatim>\<open>notify\<close> called once for each entry of a list, in order, up to the first failure.\<close>

fun notify_many :: "client \<Rightarrow> (string \<times> (string \<times> json) list option) list \<Rightarrow> error + client" where
  "notify_many st [] = Inr st"
| "notify_many st ((method, params) # rest) =
     (case notify st method params of Inl e \<Rightarrow> Inl e | Inr st1 \<Rightarrow> notify_many st1 rest)"

text \<open>
  \<^verbatim>\<open>request\<close> called once for each entry of a list (method, params, timeout), in order,
  whatever each call returns or raises. The trace records, for each call, the id it took
  from \<^verbatim>\<open>_next_id\<close> and its outcome.
\<close>

fun request_many ::
  "(string \<Rightarrow> error + json) \<Rightarrow> client \<Rightarrow> (string \<times> (string \<times> json) list option \<times> int option) list
     \<Rightarrow> (int \<times> (error + json)) list \<times> client" where
  "request_many loads st [] = ([], st)"
| "request_many loads st ((method, params, timeout) # rest) =
     (case request loads st method params timeout of (r, st1) \<Rightarrow>
        (case request_many loads st1 rest of (trace, st2) \<Rightarrow> ((next_id st, r) # trace, st2)))"

text \<open>What \<^verbatim>\<open>stop\<close> leaves alone: everything but the exit status, the pending exit and the clock.\<close>

definition kept_by_stop ::
  "client \<Rightarrow> string \<times> int \<times> bool \<times> int \<times> string list \<times> json list option
     \<times> (int \<times> piece) list option \<times> string \<times> string list option \<times> child \<times> string list" where
  "kept_by_stop st =
     (server_cmd st, request_timeout st, verbose st, next_id st, stderr_lines st, stdin st,
      stdout st, stdout_buf st, stderr st, proc st, printed st)"

text \<open>
  A line of noise on the response stream: a line (not the end of file) that is blank
  once stripped, or on which \<^verbatim>\<open>json.loads\<close> raises \<^verbatim>\<open>JSONDecodeError\<close>.
\<close>

definition noise :: "(string \<Rightarrow> error + json) \<Rightarrow> string \<Rightarrow> bool" where
  "noise loads line =
     (line \<noteq> [] \<and> (strip line = [] \<or> loads (strip line) = Inl JSONDecodeError))"

section \<open>Example sessions\<close>

text \<open>
  Lines a server writes, the values \<^verbatim>\<open>json.loads\<close> gives for them, and a decoder that
  agrees with \<^verbatim>\<open>json.loads\<close> on the lines used below: the three responses, a line of log
  text (\<^verbatim>\<open>JSONDecodeError\<close>) and a line of 1100 opening brackets (\<^verbatim>\<open>RecursionError\<close>). They
  give the concrete runs below; the theorems hold for every decoder.
\<close>

definition tools_line_1 :: string where
  \<open>tools_line_1 = ''{"jsonrpc": "2.0", "id": 1, "result": {"tools": []}}''\<close>

definition tools_line_2 :: string where
  \<open>tools_line_2 = ''{"jsonrpc": "2.0", "id": 2, "result": {"tools": []}}''\<close>

definition tool_error_line :: string where
  \<open>tool_error_line = ''{"jsonrpc": "2.0", "id": 1, "result": {"content": [{"type": "text", "text": "scene not found"}], "isError": true}}''\<close>

definition noise_line :: string where
  "noise_line = ''Debugger listening on ws://127.0.0.1:9229''"

definition deep_line :: string where
  "deep_line = replicate 1100 (CHR ''['')"

definition tools_message :: "int \<Rightarrow> json" where
  "tools_message i =
     JObject [(''jsonrpc'', JString ''2.0''), (''id'', JInt i),
              (''result'', JObject [(''tools'', JArray [])])]"

definition tool_error_message :: json where
  "tool_error_message =
     JObject [(''jsonrpc'', JString ''2.0''), (''id'', JInt 1),
              (''result'',
               JObject [(''content'',
                         JArray [JObject [(''type'', JString ''text''),
                                          (''text'', JString ''scene not found'')]]),
                        (''isError'', JBool True)])]"

definition example_loads :: "string \<Rightarrow> error + json" where
  "example_loads s =
     (if s = tools_line_1 then Inr (tools_message 1)
      else if s = tools_line_2 then Inr (tools_message 2)
      else if s = tool_error_line then Inr tool_error_message
      else if s = deep_line then Inl RecursionError
      else Inl JSONDecodeError)"

text \<open>The child writes the line \<open>s\<close> at time \<open>t\<close>, in one piece, with its newline.\<close>

definition sent :: "int \<Rightarrow> string \<Rightarrow> (int \<times> piece) list" where
  "sent t s = map (\<lambda>c. (t, Chr c)) (s @ [CHR 0x0A])"

text \<open>
  A child that exits 100 ms after \<^verbatim>\<open>terminate()\<close> with status -15, and one that ignores
  \<^verbatim>\<open>terminate()\<close>; a \<^verbatim>\<open>kill()\<close> takes 1 ms to end either.
\<close>

definition polite_child :: child where
  "polite_child = \<lparr>sigterm_exit = Some (100, - 15), sigkill_delay = 1, own_exit = None\<rparr>"

definition stubborn_child :: child where
  "stubborn_child = \<lparr>sigterm_exit = None, sigkill_delay = 1, own_exit = None\<rparr>"

definition example_client :: "bool \<Rightarrow> (int \<times> piece) list \<Rightarrow> client" where
  "example_client verb out =
     MCPClient_init ''npx -y @satelliteoflove/godot-mcp'' 20000 verb out [] polite_child 0"

section \<open>Properties of content extraction\<close>

subsection \<open>Image dimensions\<close>

lemma find_image_part_none:
  "\<forall>p\<in>set pre. \<exists>kvs. p = JObject kvs \<and> dict_get kvs ''type'' JNull \<noteq> JString ''image'' \<Longrightarrow>
   find_image_part pre = Inr None"
proof (induction pre)
  case Nil
  show ?case by simp
next
  case (Cons p pre)
  then obtain kvs where p: "p = JObject kvs" and ty: "dict_get kvs ''type'' JNull \<noteq> JString ''image''"
    by auto
  have "\<not> py_eq_str (dict_get kvs ''type'' JNull) ''image''"
    using ty by (cases "dict_get kvs ''type'' JNull") auto
  with Cons p show ?case by simp
qed

lemma find_image_part_first:
  "\<forall>p\<in>set pre. \<exists>kvs. p = JObject kvs \<and> dict_get kvs ''type'' JNull \<noteq> JString ''image'' \<Longrightarrow>
   dict_get img ''type'' JNull = JString ''image'' \<Longrightarrow>
   find_image_part (pre @ JObject img # post) = Inr (Some (JObject img))"
proof (induction pre)
  case Nil
  then show ?case by simp
next
  case (Cons p pre)
  then obtain kvs where p: "p = JObject kvs" and ty: "dict_get kvs ''type'' JNull \<noteq> JString ''image''"
    by auto
  have "\<not> py_eq_str (dict_get kvs ''type'' JNull) ''image''"
    using ty by (cases "dict_get kvs ''type'' JNull") auto
  with Cons p show ?case by simp
qed

lemma parse_after_decode:
  "find_image_part parts = Inr (Some (JObject img)) \<Longrightarrow>
   dict_get img ''data'' (JString []) = JString s \<Longrightarrow> s \<noteq> [] \<Longrightarrow> b64decode s = Inr raw \<Longrightarrow>
   parse_png_size_from_image_content b64decode (JArray parts) =
     (if length raw < 24 \<or> py_slice raw 0 8 \<noteq> PNG_SIGNATURE
      then Inl (MCPError ''Screenshot payload is not a valid PNG'')
      else unpack_II (py_slice raw 16 24))"
  by (simp add: parse_png_size_from_image_content_def py_b64decode_def)

lemma length_PNG_SIGNATURE: "length PNG_SIGNATURE = 8"
  by (simp add: PNG_SIGNATURE_def)

text \<open>
  C3. \<^verbatim>\<open>parse_png_size_from_image_content\<close> on a list of parts that are dicts:
  \<^item> when no part has type \<open>image\<close>, it raises \<^verbatim>\<open>MCPError("No image content returned")\<close>
    (the spec's NoImageContent);
  \<^item> when the first image part has no \<open>data\<close>, or empty data, it raises
    \<^verbatim>\<open>MCPError("Image content missing base64 payload")\<close> (MissingPayload);
  \<^item> when the decoded bytes do not start with the 8 bytes of the PNG signature, it raises
    \<^verbatim>\<open>MCPError("Screenshot payload is not a valid PNG")\<close> (InvalidImageFormat);
  \<^item> when the decoded bytes are the signature, 8 more bytes, and then 640 and 360 as
    big-endian 32-bit integers (bytes 16 to 23), it returns \<open>(640, 360)\<close>.
  \<open>pre\<close> are the parts before the first image part \<open>img\<close>, \<open>post\<close> the parts after it.
\<close>

theorem png_size_cases:
  assumes pre: "\<forall>p\<in>set pre. \<exists>kvs. p = JObject kvs \<and> dict_get kvs ''type'' JNull \<noteq> JString ''image''"
    and img: "dict_get img ''type'' JNull = JString ''image''"
  shows "parse_png_size_from_image_content b64decode (JArray pre)
           = Inl (MCPError ''No image content returned'')
       \<and> (\<not> truthy (dict_get img ''data'' (JString [])) \<longrightarrow>
            parse_png_size_from_image_content b64decode (JArray (pre @ JObject img # post))
              = Inl (MCPError ''Image content missing base64 payload''))
       \<and> (dict_get img ''data'' (JString []) = JString s \<and> s \<noteq> [] \<and> b64decode s = Inr raw
            \<and> take 8 raw \<noteq> PNG_SIGNATURE \<longrightarrow>
            parse_png_size_from_image_content b64decode (JArray (pre @ JObject img # post))
              = Inl (MCPError ''Screenshot payload is not a valid PNG''))
       \<and> (dict_get img ''data'' (JString []) = JString s \<and> s \<noteq> [] \<and> length mid = 8
            \<and> b64decode s = Inr (PNG_SIGNATURE @ mid @ [0, 0, 0x02, 0x80, 0, 0, 0x01, 0x68] @ rest) \<longrightarrow>
            parse_png_size_from_image_content b64decode (JArray (pre @ JObject img # post))
              = Inr (640, 360))"
proof -
  let ?content = "JArray (pre @ JObject img # post)"
  have found: "find_image_part (pre @ JObject img # post) = Inr (Some (JObject img))"
    using pre img by (rule find_image_part_first)
  have c1: "parse_png_size_from_image_content b64decode (JArray pre)
              = Inl (MCPError ''No image content returned'')"
    using find_image_part_none[OF pre] by (simp add: parse_png_size_from_image_content_def)
  have c2: "parse_png_size_from_image_content b64decode ?content
              = Inl (MCPError ''Image content missing base64 payload'')"
    if "\<not> truthy (dict_get img ''data'' (JString []))"
    using that found by (simp add: parse_png_size_from_image_content_def)
  have c3: "parse_png_size_from_image_content b64decode ?content
              = Inl (MCPError ''Screenshot payload is not a valid PNG'')"
    if "dict_get img ''data'' (JString []) = JString s" "s \<noteq> []" "b64decode s = Inr raw"
       "take 8 raw \<noteq> PNG_SIGNATURE"
    using parse_after_decode[where b64decode=b64decode, OF found that(1,2,3)] that(4) by (simp add: py_slice_def)
  have c4: "parse_png_size_from_image_content b64decode ?content = Inr (640, 360)"
    if d: "dict_get img ''data'' (JString []) = JString s" "s \<noteq> []" and m: "length mid = 8"
      and r: "b64decode s = Inr (PNG_SIGNATURE @ mid @ [0, 0, 0x02, 0x80, 0, 0, 0x01, 0x68] @ rest)"
  proof -
    let ?raw = "PNG_SIGNATURE @ mid @ [0, 0, 0x02, 0x80, 0, 0, 0x01, 0x68] @ rest"
    have sig: "py_slice ?raw 0 8 = PNG_SIGNATURE"
      by (simp add: py_slice_def length_PNG_SIGNATURE)
    have dims: "py_slice ?raw 16 24 = [0, 0, 0x02, 0x80, 0, 0, 0x01, 0x68]"
      using m by (simp add: py_slice_def length_PNG_SIGNATURE)
    have len: "\<not> length ?raw < 24"
      using m by (simp add: length_PNG_SIGNATURE)
    show ?thesis
      unfolding parse_after_decode[where b64decode=b64decode, OF found d r]
      using sig len by (simp only: dims if_False simp_thms) (simp add: unpack_II_def be_uint_def)
  qed
  from c1 c2 c3 c4 show ?thesis by blast
qed

theorem png_size_cases_witness:
  "parse_png_size_from_image_content (\<lambda>s. Inl DecodeError)
     (JArray [JObject [(''type'', JString ''text''), (''text'', JString ''ok'')]])
     = Inl (MCPError ''No image content returned'')
   \<and> parse_png_size_from_image_content (\<lambda>s. Inl DecodeError)
     (JArray [JObject [(''type'', JString ''text''), (''text'', JString ''ok'')],
              JObject [(''type'', JString ''image''), (''data'', JString [])]])
     = Inl (MCPError ''Image content missing base64 payload'')
   \<and> parse_png_size_from_image_content (\<lambda>s. Inr [0x47, 0x49, 0x46, 0x38, 0x39, 0x61])
     (JArray [JObject [(''type'', JString ''text''), (''text'', JString ''ok'')],
              JObject [(''type'', JString ''image''), (''data'', JString ''R0lGODlh'')]])
     = Inl (MCPError ''Screenshot payload is not a valid PNG'')
   \<and> parse_png_size_from_image_content
       (\<lambda>s. Inr (PNG_SIGNATURE @ [0, 0, 0, 0x0D, 0x49, 0x48, 0x44, 0x52]
                    @ [0, 0, 0x02, 0x80, 0, 0, 0x01, 0x68] @ [8, 6, 0, 0, 0]))
     (JArray [JObject [(''type'', JString ''text''), (''text'', JString ''ok'')],
              JObject [(''type'', JString ''image''), (''data'', JString ''iVBORw0KGgo'')]])
     = Inr (640, 360)"
proof -
  let ?text = "JObject [(''type'', JString ''text''), (''text'', JString ''ok'')]"
  have pre: "\<forall>p\<in>set [?text]. \<exists>kvs. p = JObject kvs \<and> dict_get kvs ''type'' JNull \<noteq> JString ''image''"
    by (simp add: dict_get_def)
  have i1: "dict_get [(''type'', JString ''image''), (''data'', JString [])] ''type'' JNull
              = JString ''image''"
    by (simp add: dict_get_def)
  have i2: "dict_get [(''type'', JString ''image''), (''data'', JString ''R0lGODlh'')] ''type'' JNull
              = JString ''image''"
    by (simp add: dict_get_def)
  have i3: "dict_get [(''type'', JString ''image''), (''data'', JString ''iVBORw0KGgo'')] ''type'' JNull
              = JString ''image''"
    by (simp add: dict_get_def)
  show ?thesis
    using png_size_cases [OF pre i1, where b64decode = "\<lambda>s. Inl DecodeError" and post = "[]"]
      png_size_cases [OF pre i2, where b64decode = "\<lambda>s. Inr [0x47, 0x49, 0x46, 0x38, 0x39, 0x61]"
        and post = "[]" and s = "''R0lGODlh''" and raw = "[0x47, 0x49, 0x46, 0x38, 0x39, 0x61]"]
      png_size_cases [OF pre i3,
        where b64decode = "\<lambda>s. Inr (PNG_SIGNATURE @ [0, 0, 0, 0x0D, 0x49, 0x48, 0x44, 0x52]
                    @ [0, 0, 0x02, 0x80, 0, 0, 0x01, 0x68] @ [8, 6, 0, 0, 0])"
        and post = "[]" and s = "''iVBORw0KGgo''" and mid = "[0, 0, 0, 0x0D, 0x49, 0x48, 0x44, 0x52]"
        and rest = "[8, 6, 0, 0, 0]"]
    by (simp add: dict_get_def PNG_SIGNATURE_def)
qed

text \<open>
  C10. A decoded payload of fewer than 24 bytes is rejected with
  \<^verbatim>\<open>MCPError("Screenshot payload is not a valid PNG")\<close>, whatever its first bytes are; a
  size is returned only for a payload of at least 24 bytes, for which the slice
  \<^verbatim>\<open>raw[16:24]\<close> has the 8 bytes \<^verbatim>\<open>struct.unpack\<close> needs, so that \<^verbatim>\<open>struct.error\<close> is never
  raised.
\<close>

theorem png_short_payload_rejected:
  assumes pre: "\<forall>p\<in>set pre. \<exists>kvs. p = JObject kvs \<and> dict_get kvs ''type'' JNull \<noteq> JString ''image''"
    and img: "dict_get img ''type'' JNull = JString ''image''"
    and dat: "dict_get img ''data'' (JString []) = JString s" "s \<noteq> []"
    and dec: "b64decode s = Inr raw"
  shows "(length raw < 24 \<longrightarrow>
            parse_png_size_from_image_content b64decode (JArray (pre @ JObject img # post))
              = Inl (MCPError ''Screenshot payload is not a valid PNG''))
       \<and> (\<forall>w h. parse_png_size_from_image_content b64decode (JArray (pre @ JObject img # post))
                   = Inr (w, h) \<longrightarrow>
              24 \<le> length raw \<and> length (py_slice raw 16 24) = 8
              \<and> w = be_uint (py_slice raw 16 20) \<and> h = be_uint (py_slice raw 20 24))
       \<and> parse_png_size_from_image_content b64decode (JArray (pre @ JObject img # post))
            \<noteq> Inl StructError"
proof -
  have found: "find_image_part (pre @ JObject img # post) = Inr (Some (JObject img))"
    using pre img by (rule find_image_part_first)
  note eq = parse_after_decode [where b64decode = b64decode, OF found dat dec]
  have len8: "length (py_slice raw 16 24) = 8" if "24 \<le> length raw"
    using that by (simp add: py_slice_def)
  have t4: "take 4 (py_slice raw 16 24) = py_slice raw 16 20"
    by (simp add: py_slice_def)
  have d4: "drop 4 (py_slice raw 16 24) = py_slice raw 20 24"
    by (simp add: py_slice_def drop_take)
  show ?thesis
  proof (cases "length raw < 24")
    case True
    then show ?thesis by (simp add: eq)
  next
    case False
    then have "length (py_slice raw 16 24) = 8" by (simp add: len8)
    with False show ?thesis
      by (auto simp: eq unpack_II_def t4 d4)
  qed
qed

theorem png_short_payload_rejected_witness:
  "parse_png_size_from_image_content (\<lambda>s. Inr (PNG_SIGNATURE @ [0, 0, 0, 0x0D]))
     (JArray [JObject [(''type'', JString ''image''), (''data'', JString ''iVBORw0KGgoAAAAN'')]])
     = Inl (MCPError ''Screenshot payload is not a valid PNG'')"
proof -
  have pre: "\<forall>p\<in>set []. \<exists>kvs. p = JObject kvs \<and> dict_get kvs ''type'' JNull \<noteq> JString ''image''"
    by simp
  have img: "dict_get [(''type'', JString ''image''), (''data'', JString ''iVBORw0KGgoAAAAN'')]
               ''type'' JNull = JString ''image''"
    by (simp add: dict_get_def)
  have dat: "dict_get [(''type'', JString ''image''), (''data'', JString ''iVBORw0KGgoAAAAN'')]
               ''data'' (JString []) = JString ''iVBORw0KGgoAAAAN''" "''iVBORw0KGgoAAAAN'' \<noteq> []"
    by (simp_all add: dict_get_def)
  have dec: "(\<lambda>s. Inr (PNG_SIGNATURE @ [0, 0, 0, 0x0D])) ''iVBORw0KGgoAAAAN''
               = (Inr (PNG_SIGNATURE @ [0, 0, 0, 0x0D]) :: error + byte list)"
    by simp
  show ?thesis
    using png_short_payload_rejected [OF pre img dat dec, where post = "[]"]
    by (simp add: PNG_SIGNATURE_def)
qed

subsection \<open>Text of a result\<close>

lemma text_parts_typed: "text_parts (map part_json ps) = Inr (map JString (texts_of ps))"
proof (induction ps)
  case Nil
  show ?case by simp
next
  case (Cons p ps)
  show ?case
  proof (cases p)
    case (TextPart t)
    with Cons show ?thesis by (simp add: dict_get_def)
  next
    case (ImagePart d mime)
    with Cons show ?thesis by (cases d) (simp_all add: dict_get_def)
  qed
qed

lemma filter_truthy_strings:
  "filter truthy (map JString ts) = map JString (filter (\<lambda>t. t \<noteq> []) ts)"
  by (induction ts) auto

lemma as_strs_strings: "as_strs (map JString ts) = Inr ts"
  by (induction ts) auto

lemma text_from_content_typed:
  "text_from_content (content_json ps) = Inr (join [CHR 0x0A] (filter (\<lambda>t. t \<noteq> []) (texts_of ps)))"
  by (simp add: text_from_content_def content_json_def text_parts_typed filter_truthy_strings
      py_join_def as_strs_strings)

text \<open>
  C5, as the spec states it, fails: a text part whose text is empty is dropped by the
  filter \<^verbatim>\<open>[t for t in text_parts if t]\<close>, so the parts \<open>""\<close>, \<open>"b"\<close> give \<open>"b"\<close> where
  joining all text parts gives a newline and \<open>"b"\<close>.
\<close>

theorem textOf_counterexample:
  "text_from_content (content_json [TextPart [], TextPart ''b'']) = Inr ''b''
   \<and> textOf_spec [TextPart [], TextPart ''b''] = [CHR 0x0A, CHR ''b'']
   \<and> text_from_content (content_json [TextPart [], TextPart ''b''])
       \<noteq> Inr (textOf_spec [TextPart [], TextPart ''b''])"
  by (simp add: text_from_content_typed textOf_spec_def)

text \<open>
  C5, amended. \<^verbatim>\<open>text_from_content\<close> joins with newlines the texts of the text parts that
  are not empty, in order, and skips the other parts; it agrees with the spec's \<open>textOf\<close>
  whenever no text part is empty. The empty list gives the empty string, and the parts
  text \<open>"a"\<close>, image, text \<open>"b"\<close> give \<open>"a\nb"\<close>.
\<close>

theorem text_from_content_nonempty_texts:
  "text_from_content (content_json ps)
     = Inr (join [CHR 0x0A] (filter (\<lambda>t. t \<noteq> []) (texts_of ps)))
   \<and> ((\<forall>t\<in>set (texts_of ps). t \<noteq> []) \<longrightarrow>
        text_from_content (content_json ps) = Inr (textOf_spec ps))
   \<and> text_from_content (content_json []) = Inr []
   \<and> text_from_content
        (content_json [TextPart ''a'', ImagePart (Some ''iVBORw0KGgo'') ''image/png'', TextPart ''b''])
       = Inr (''a'' @ [CHR 0x0A] @ ''b'')"
proof -
  have "filter (\<lambda>t. t \<noteq> []) (texts_of ps) = texts_of ps" if "\<forall>t\<in>set (texts_of ps). t \<noteq> []"
    using that by (simp add: filter_id_conv)
  then show ?thesis
    by (simp add: text_from_content_typed textOf_spec_def)
qed

theorem text_from_content_nonempty_texts_witness:
  "text_from_content (content_json [TextPart ''a'', ImagePart None ''image/png'', TextPart ''b''])
     = Inr (textOf_spec [TextPart ''a'', ImagePart None ''image/png'', TextPart ''b''])
   \<and> textOf_spec [TextPart ''a'', ImagePart None ''image/png'', TextPart ''b'']
     = ''a'' @ [CHR 0x0A] @ ''b''"
  using text_from_content_nonempty_texts [of "[TextPart ''a'', ImagePart None ''image/png'', TextPart ''b'']"]
  by (simp add: textOf_spec_def)

section \<open>Properties of the client\<close>

subsection \<open>The diagnostic buffer\<close>

lemma deque_append_drop:
  "deque_append cap (drop (length ys - cap) ys) x = drop (length (ys @ [x]) - cap) (ys @ [x])"
proof (cases "length ys < cap")
  case True
  then show ?thesis by (simp add: deque_append_def)
next
  case False
  let ?k = "length ys - cap"
  have "drop (Suc ?k) (ys @ [x]) = tl (drop ?k (ys @ [x]))"
    by (simp only: drop_Suc tl_drop)
  also have "drop ?k (ys @ [x]) = drop ?k ys @ [x]"
    by simp
  finally have "drop (Suc ?k) (ys @ [x]) = tl (drop ?k ys @ [x])" .
  moreover have "Suc (length ys) - cap = Suc ?k"
    using False by simp
  ultimately show ?thesis
    using False by (simp add: deque_append_def)
qed

lemma deque_fold:
  "length d \<le> cap \<Longrightarrow>
   foldl (deque_append cap) d xs = drop (length (d @ xs) - cap) (d @ xs)"
proof (induction xs rule: rev_induct)
  case Nil
  then show ?case by simp
next
  case (snoc x xs)
  then show ?case
    using deque_append_drop [of cap "d @ xs" x] by simp
qed

lemma drain_loop_lines:
  "stderr_lines (drain_loop st ls)
     = foldl (deque_append 200) (stderr_lines st) (map rstrip_nl (takeWhile (\<lambda>l. l \<noteq> []) ls))"
  by (induction ls arbitrary: st) (simp_all add: Let_def py_print_def)

text \<open>
  C4. A deque of capacity \<open>cap\<close> that starts empty holds at most \<open>cap\<close> items after any
  sequence of appends, and holds exactly the last \<open>cap\<close> of them in their order (all of
  them when there are fewer): after \<open>cap + k\<close> appends the first \<open>k\<close> are gone. For the
  client, whose deque has capacity 200: after \<^verbatim>\<open>_drain_stderr\<close> has read the diagnostic
  stream to its end, \<^verbatim>\<open>_stderr_lines\<close> is the last 200 lines read, each without its
  newline, and \<^verbatim>\<open>stderr_tail\<close> returns them joined by newlines.
\<close>

theorem diagnostic_buffer_fifo:
  "length (foldl (deque_append cap) [] xs) \<le> cap
   \<and> foldl (deque_append cap) [] xs = drop (length xs - cap) xs
   \<and> map_sum id stderr_lines (drain_stderr (MCPClient_init cmd timeout verb out err term t0))
       = Inr (drop (length (takeWhile (\<lambda>l. l \<noteq> []) err) - 200)
                (map rstrip_nl (takeWhile (\<lambda>l. l \<noteq> []) err)))
   \<and> map_sum id stderr_tail (drain_stderr (MCPClient_init cmd timeout verb out err term t0))
       = Inr (join [CHR 0x0A] (drop (length (takeWhile (\<lambda>l. l \<noteq> []) err) - 200)
                (map rstrip_nl (takeWhile (\<lambda>l. l \<noteq> []) err))))"
proof -
  have a: "foldl (deque_append cap) [] ys = drop (length ys - cap) ys" for ys :: "'a list"
    using deque_fold [of "[]" cap ys] by simp
  have b: "stderr_lines (drain_loop (MCPClient_init cmd timeout verb out err term t0) err)
             = drop (length (takeWhile (\<lambda>l. l \<noteq> []) err) - 200)
                (map rstrip_nl (takeWhile (\<lambda>l. l \<noteq> []) err))"
    using deque_fold [of "[]" 200 "map rstrip_nl (takeWhile (\<lambda>l. l \<noteq> []) err)"]
    by (simp add: drain_loop_lines MCPClient_init_def)
  have c: "drain_stderr (MCPClient_init cmd timeout verb out err term t0)
             = Inr (drain_loop (MCPClient_init cmd timeout verb out err term t0) err)"
    by (simp add: drain_stderr_def MCPClient_init_def)
  show ?thesis
    by (simp add: a c b stderr_tail_def)
qed

theorem diagnostic_buffer_fifo_witness:
  "foldl (deque_append 2) [] [''a'', ''b'', ''c''] = [''b'', ''c'']
   \<and> map_sum id stderr_lines
        (drain_stderr (MCPClient_init ''srv'' 20000 False [] [''e1'' @ [CHR 0x0A], ''e2'' @ [CHR 0x0A]] polite_child 0))
       = Inr [''e1'', ''e2'']"
  using diagnostic_buffer_fifo [of 2 "[''a'', ''b'', ''c'']" "''srv''" 20000 False "[]"
      "[''e1'' @ [CHR 0x0A], ''e2'' @ [CHR 0x0A]]" polite_child 0]
  by (simp add: rstrip_nl_def)

subsection \<open>Stopping\<close>

lemma stop_exited: "exit_status st \<noteq> None \<Longrightarrow> stop st = st"
  by (auto simp: stop_def poll_def)

lemma kept_eq:
  "kept_by_stop a = kept_by_stop b \<Longrightarrow>
   a = b\<lparr>exit_status := exit_status a, dying := dying a, now := now a\<rparr>"
  by (cases a, cases b) (simp add: kept_by_stop_def)

lemma poll_kept:
  "poll st = (code, st1) \<Longrightarrow> kept_by_stop st1 = kept_by_stop st \<and> now st1 = now st"
  by (auto simp: poll_def kept_by_stop_def split: option.splits if_splits)

lemma terminate_kept:
  "kept_by_stop (terminate st) = kept_by_stop st \<and> now (terminate st) = now st"
  by (auto simp: terminate_def poll_def schedule_def kept_by_stop_def split: option.splits if_splits)

lemma kill_kept:
  "kept_by_stop (kill st) = kept_by_stop st \<and> now (kill st) = now st"
  by (auto simp: kill_def poll_def schedule_def kept_by_stop_def split: option.splits if_splits)

lemma wait_kept:
  "wait st timeout = (ok, st1) \<Longrightarrow> 0 \<le> timeout \<Longrightarrow>
   kept_by_stop st1 = kept_by_stop st \<and> now st \<le> now st1 \<and> now st1 \<le> now st + timeout"
  by (auto simp: wait_def kept_by_stop_def split: option.splits if_splits)

lemma stop_kept:
  "kept_by_stop (stop st) = kept_by_stop st \<and> now st \<le> now (stop st)
   \<and> now (stop st) \<le> now st + 5000"
proof -
  obtain code st1 where po: "poll st = (code, st1)" by (cases "poll st")
  obtain ok st3 where w: "wait (terminate st1) 5000 = (ok, st3)"
    by (cases "wait (terminate st1) 5000")
  note p = poll_kept [OF po]
  note t = terminate_kept [of st1]
  note wk = wait_kept [OF w]
  note k = kill_kept [of st3]
  show ?thesis
  proof (cases code)
    case (Some c)
    with po have "stop st = st1" by (simp add: stop_def)
    with p show ?thesis by simp
  next
    case None
    show ?thesis
    proof (cases ok)
      case True
      with po None w have "stop st = st3" by (simp add: stop_def)
      with p t wk show ?thesis by simp
    next
      case False
      with po None w have "stop st = kill st3" by (simp add: stop_def)
      with p t wk k show ?thesis by simp
    qed
  qed
qed

lemma stop_frame:
  "stop st = st\<lparr>exit_status := exit_status (stop st), dying := dying (stop st), now := now (stop st)\<rparr>
   \<and> now st \<le> now (stop st) \<and> now (stop st) \<le> now st + 5000"
  using stop_kept [of st] kept_eq [of "stop st" st] by blast

lemma terminate_polite:
  assumes "exit_status st = None" "sigterm_exit (proc st) = Some (delay, code)" "delay \<le> 5000"
  shows "exit_status (terminate st) \<noteq> None
         \<or> (\<exists>t c. dying (terminate st) = Some (t, c) \<and> t \<le> now (terminate st) + 5000)"
  using assms
  by (auto simp: terminate_def schedule_def poll_def split: option.splits if_splits)

lemma wait_exits:
  "exit_status st \<noteq> None \<or> (\<exists>t c. dying st = Some (t, c) \<and> t \<le> now st + timeout) \<Longrightarrow>
   wait st timeout = (ok, st1) \<Longrightarrow> ok \<and> exit_status st1 \<noteq> None"
  by (auto simp: wait_def split: option.splits if_splits)

lemma stop_polite:
  assumes "sigterm_exit (proc st) = Some (delay, code)" "delay \<le> 5000"
  shows "exit_status (stop st) \<noteq> None"
proof -
  obtain c st1 where po: "poll st = (c, st1)" by (cases "poll st")
  obtain ok st3 where w: "wait (terminate st1) 5000 = (ok, st3)"
    by (cases "wait (terminate st1) 5000")
  show ?thesis
  proof (cases c)
    case (Some x)
    with po show ?thesis by (auto simp: stop_def poll_def split: option.splits if_splits)
  next
    case None
    with po have st1: "st1 = st" "exit_status st = None"
      by (auto simp: poll_def split: option.splits if_splits)
    from wait_exits [OF terminate_polite [OF st1(2) assms] w [unfolded st1]]
    have "ok" "exit_status st3 \<noteq> None" by simp_all
    with po None w show ?thesis by (simp add: stop_def)
  qed
qed

text \<open>
  C8, as the spec states it, fails: nothing waits for the child after \<^verbatim>\<open>kill()\<close>. For a
  child that ignores \<^verbatim>\<open>terminate()\<close>, the first \<^verbatim>\<open>stop\<close> waits 5 seconds, kills it and
  returns while \<^verbatim>\<open>poll()\<close> is still \<^verbatim>\<open>None\<close>; the second \<^verbatim>\<open>stop\<close> then is no no-op: it calls
  \<^verbatim>\<open>terminate()\<close> and \<^verbatim>\<open>wait\<close> again and records the status -9.
\<close>

theorem stop_twice_counterexample:
  "exit_status (stop (MCPClient_init ''srv'' 20000 False [] [] stubborn_child 0)) = None
   \<and> exit_status (stop (stop (MCPClient_init ''srv'' 20000 False [] [] stubborn_child 0)))
       = Some (- 9)
   \<and> stop (stop (MCPClient_init ''srv'' 20000 False [] [] stubborn_child 0))
       \<noteq> stop (MCPClient_init ''srv'' 20000 False [] [] stubborn_child 0)"
proof -
  let ?c = "MCPClient_init ''srv'' 20000 False [] [] stubborn_child 0"
  have a: "exit_status (stop ?c) = None" by code_simp
  have b: "exit_status (stop (stop ?c)) = Some (- 9)" by code_simp
  from a b have "stop (stop ?c) \<noteq> stop ?c" by auto
  with a b show ?thesis by simp
qed

text \<open>
  C8, amended. \<^verbatim>\<open>stop\<close> never fails (it has no failing branch) and does not hang: it
  returns within the 5 seconds of its \<^verbatim>\<open>wait\<close>. It changes nothing but the recorded exit
  status, the exit the child is heading for and the clock. On a client whose process has
  exited, with its status recorded, \<^verbatim>\<open>stop\<close> is a no-op; so a second \<^verbatim>\<open>stop\<close> is a no-op
  whenever the first one saw the process exit, as it does for every child that exits
  within 5 seconds of \<^verbatim>\<open>terminate()\<close>.
\<close>

theorem stop_noop_once_exited:
  "(exit_status st \<noteq> None \<longrightarrow> stop st = st)
   \<and> (exit_status (stop st) \<noteq> None \<longrightarrow> stop (stop st) = stop st)
   \<and> (\<forall>delay code. sigterm_exit (proc st) = Some (delay, code) \<and> delay \<le> 5000 \<longrightarrow>
         exit_status (stop st) \<noteq> None \<and> stop (stop st) = stop st)
   \<and> now st \<le> now (stop st) \<and> now (stop st) \<le> now st + 5000
   \<and> stop st = st\<lparr>exit_status := exit_status (stop st), dying := dying (stop st),
                   now := now (stop st)\<rparr>"
proof -
  have a: "stop s = s" if "exit_status s \<noteq> None" for s
    using that by (rule stop_exited)
  have b: "exit_status (stop st) \<noteq> None \<and> stop (stop st) = stop st"
    if "sigterm_exit (proc st) = Some (delay, code)" "delay \<le> 5000" for delay code
    using stop_polite [OF that] a by simp
  from a [of st] a [of "stop st"] b stop_frame [of st] show ?thesis by blast
qed

theorem stop_noop_once_exited_witness:
  "exit_status (stop (MCPClient_init ''srv'' 20000 False [] [] polite_child 0)) = Some (- 15)
   \<and> now (stop (MCPClient_init ''srv'' 20000 False [] [] polite_child 0)) = 100
   \<and> stop (stop (MCPClient_init ''srv'' 20000 False [] [] polite_child 0))
       = stop (MCPClient_init ''srv'' 20000 False [] [] polite_child 0)"
proof -
  let ?c = "MCPClient_init ''srv'' 20000 False [] [] polite_child 0"
  have e: "exit_status (stop ?c) = Some (- 15)" "now (stop ?c) = 100" by code_simp+
  have h: "sigterm_exit (proc ?c) = Some (100, - 15) \<and> (100 :: int) \<le> 5000"
    by (simp add: MCPClient_init_def polite_child_def)
  from stop_noop_once_exited [of ?c] h have "stop (stop ?c) = stop ?c" by blast
  with e show ?thesis by simp
qed

subsection \<open>Notifications\<close>

lemma notify_many_writes:
  "stdin st = Some written \<Longrightarrow>
   notify_many st ns
     = Inr (st\<lparr>stdin := Some (written @ map (\<lambda>(method, params). notify_payload method params) ns)\<rparr>)"
proof (induction ns arbitrary: st written)
  case Nil
  then show ?case by simp
next
  case (Cons n ns)
  obtain m p where n: "n = (m, p)" by (cases n)
  let ?st1 = "st\<lparr>stdin := Some (written @ [notify_payload m p])\<rparr>"
  have "notify st m p = Inr ?st1"
    using Cons.prems by (simp add: notify_def send_def)
  moreover have "stdin ?st1 = Some (written @ [notify_payload m p])" by simp
  ultimately show ?case
    using Cons.IH [of ?st1 "written @ [notify_payload m p]"] n by simp
qed

text \<open>
  C9. With \<^verbatim>\<open>process.stdin\<close> available, sending the notifications of a list writes one
  message for each to the command stream, in order, none with an \<open>id\<close> member, and changes
  nothing else: the counter \<^verbatim>\<open>_next_id\<close> is as before, nothing was read from the response
  stream and no time was spent waiting.
\<close>

theorem notify_fire_and_forget:
  assumes "stdin st = Some written"
  shows "notify_many st ns
           = Inr (st\<lparr>stdin := Some (written @ map (\<lambda>(method, params). notify_payload method params) ns)\<rparr>)
       \<and> (\<forall>(method, params)\<in>set ns. py_in ''id'' (notify_payload method params) = Inr False)
       \<and> (\<forall>st'. notify_many st ns = Inr st' \<longrightarrow>
             next_id st' = next_id st \<and> stdout st' = stdout st \<and> now st' = now st
             \<and> stderr_lines st' = stderr_lines st \<and> exit_status st' = exit_status st)"
proof -
  have "py_in ''id'' (notify_payload m p) = Inr False" for m p
    by (simp add: notify_payload_def)
  then show ?thesis
    using notify_many_writes [OF assms, of ns] by auto
qed

theorem notify_fire_and_forget_witness:
  "map_sum id stdin
     (notify_many (MCPClient_init ''srv'' 20000 False [] [] polite_child 0)
        [(''notifications/initialized'', Some []), (''ping'', None)])
     = Inr (Some [notify_payload ''notifications/initialized'' (Some []), notify_payload ''ping'' None])
   \<and> map_sum id next_id
     (notify_many (MCPClient_init ''srv'' 20000 False [] [] polite_child 0)
        [(''notifications/initialized'', Some []), (''ping'', None)])
     = Inr 1"
proof -
  have "stdin (MCPClient_init ''srv'' 20000 False [] [] polite_child 0) = Some []"
    by (simp add: MCPClient_init_def)
  from notify_fire_and_forget [OF this,
      of "[(''notifications/initialized'', Some []), (''ping'', None)]"]
  show ?thesis by (simp add: MCPClient_init_def)
qed


section \<open>Properties of reading and correlation\<close>

lemma request_loop_unfold:
  "request_loop loads st request_id m started limit =
     (if limit - (now st - started) \<le> 0
      then (Inl (MCPError (''Timed out waiting for response to '' @ m)), st)
      else
        (case read_message loads st (limit - (now st - started)) of
           (Inl e, st1) \<Rightarrow> (Inl e, st1)
         | (Inr msg, st1) \<Rightarrow>
             (case py_get msg ''id'' JNull of
                Inl e \<Rightarrow> (Inl e, st1)
              | Inr v \<Rightarrow>
                  if py_eq_int v request_id then (Inr msg, st1)
                  else request_loop loads st1 request_id m started limit)))"
  by (subst request_loop.simps) (simp add: Let_def)

lemma py_get_Inr: "py_get msg k d = Inr v \<Longrightarrow> \<exists>kvs. msg = JObject kvs \<and> v = dict_get kvs k d"
  by (cases msg) auto

lemma request_loop_effect:
  "request_loop loads st request_id m started limit = (r, st') \<Longrightarrow>
   session_fields st' = session_fields st \<and> r \<noteq> Inl JSONDecodeError \<and>
   (\<forall>msg. r = Inr msg \<longrightarrow>
      (\<exists>kvs. msg = JObject kvs \<and> py_eq_int (dict_get kvs ''id'' JNull) request_id) \<and>
      (\<exists>s. s \<noteq> [] \<and> loads s = Inr msg))"
proof (induction "unread st" arbitrary: st rule: less_induct)
  case less
  note run = less.prems [unfolded request_loop_unfold [of loads st]]
  show ?case
  proof (cases "limit - (now st - started) \<le> 0")
    case True
    with run show ?thesis by auto
  next
    case rem: False
    obtain r1 st1 where rm: "read_message loads st (limit - (now st - started)) = (r1, st1)"
      by (cases "read_message loads st (limit - (now st - started))")
    note eff = read_message_effect [OF rm]
    show ?thesis
    proof (cases r1)
      case (Inl e)
      with run rem rm eff show ?thesis by auto
    next
      case (Inr msg1)
      with eff have less1: "unread st1 < unread st" and dec: "\<exists>s. s \<noteq> [] \<and> loads s = Inr msg1"
        by simp_all
      show ?thesis
      proof (cases "py_get msg1 ''id'' JNull")
        case e: (Inl e)
        then have "e = AttributeError" by (cases msg1) auto
        with run rem rm Inr eff e show ?thesis by auto
      next
        case v: (Inr v)
        from py_get_Inr [OF v] obtain kvs where kvs: "msg1 = JObject kvs" "v = dict_get kvs ''id'' JNull"
          by blast
        show ?thesis
        proof (cases "py_eq_int v request_id")
          case True
          with run rem rm Inr v have "r = Inr msg1" "st' = st1" by auto
          with eff dec kvs True show ?thesis by auto
        next
          case False
          with run rem rm Inr v
          have rec: "request_loop loads st1 request_id m started limit = (r, st')" by auto
          from less.hyps [OF less1 rec] eff show ?thesis by simp
        qed
      qed
    qed
  qed
qed

lemma request_effect:
  assumes "request loads st m p timeout = (r, st')"
  shows "next_id st' = next_id st + 1"
    and "stdin st = Some w \<Longrightarrow> stdin st' = Some (w @ [request_payload (next_id st) m p])"
    and "r = Inr msg \<Longrightarrow> \<exists>kvs. msg = JObject kvs \<and> py_eq_int (dict_get kvs ''id'' JNull) (next_id st)"
proof -
  let ?st1 = "st\<lparr>next_id := next_id st + 1\<rparr>"
  have all: "next_id st' = next_id st + 1
     \<and> (stdin st = Some w \<longrightarrow> stdin st' = Some (w @ [request_payload (next_id st) m p]))
     \<and> (r = Inr msg \<longrightarrow> (\<exists>kvs. msg = JObject kvs \<and> py_eq_int (dict_get kvs ''id'' JNull) (next_id st)))"
  proof (cases "stdin st")
    case None
    with assms show ?thesis by (auto simp: request_def send_def Let_def)
  next
    case (Some written)
    let ?st2 = "?st1\<lparr>stdin := Some (written @ [request_payload (next_id st) m p])\<rparr>"
    from assms Some
    have "request_loop loads ?st2 (next_id st) m (now ?st2)
            (case timeout of Some t \<Rightarrow> t | None \<Rightarrow> request_timeout ?st2) = (r, st')"
      by (simp add: request_def send_def Let_def)
    from request_loop_effect [OF this] Some show ?thesis
      by (auto simp: session_fields_def)
  qed
  from all show "next_id st' = next_id st + 1" by simp
  from all show "stdin st = Some w \<Longrightarrow> stdin st' = Some (w @ [request_payload (next_id st) m p])" by simp
  from all show "r = Inr msg \<Longrightarrow> \<exists>kvs. msg = JObject kvs \<and> py_eq_int (dict_get kvs ''id'' JNull) (next_id st)"
    by simp
qed

lemma request_many_ids:
  "request_many loads st calls = (trace, st') \<Longrightarrow>
   sorted_wrt (<) (map fst trace) \<and> length trace = length calls
   \<and> (\<forall>i\<in>set (map fst trace). next_id st \<le> i \<and> i < next_id st')
   \<and> next_id st' = next_id st + int (length calls)
   \<and> (\<forall>x\<in>set trace. \<forall>msg. snd x = Inr msg \<longrightarrow>
        (\<exists>kvs. msg = JObject kvs \<and> py_eq_int (dict_get kvs ''id'' JNull) (fst x)))"
proof (induction calls arbitrary: st trace st')
  case Nil
  then show ?case by simp
next
  case (Cons c calls)
  obtain m p timeout where c: "c = (m, p, timeout)" by (cases c)
  obtain r st1 where req: "request loads st m p timeout = (r, st1)"
    by (cases "request loads st m p timeout")
  obtain trace1 st2 where many: "request_many loads st1 calls = (trace1, st2)"
    by (cases "request_many loads st1 calls")
  from Cons.prems c req many have tr: "trace = (next_id st, r) # trace1" and st': "st' = st2"
    by simp_all
  note ih = Cons.IH [OF many]
  note n1 = request_effect(1) [OF req]
  have "\<exists>kvs. msg = JObject kvs \<and> py_eq_int (dict_get kvs ''id'' JNull) (next_id st)"
    if "r = Inr msg" for msg
    using request_effect(3) [OF req that] .
  with ih n1 show ?case
    unfolding tr st' by (auto simp: less_imp_le)
qed

lemma strip_Nil: "strip [] = []"
  by (simp add: strip_def rstrip_def)

subsection \<open>Lines written in one piece\<close>

text \<open>
  What \<^verbatim>\<open>select\<close> and \<^verbatim>\<open>readline\<close> do when the child has written one whole line in one
  piece and the wrapper's buffer is empty.
\<close>

lemma split_chunk_sent:
  "t \<le> T \<Longrightarrow> int (length xs) \<le> n \<Longrightarrow> rest = [] \<or> T < fst (hd rest) \<Longrightarrow>
   split_chunk n T (map (\<lambda>c. (t, Chr c)) xs @ rest) = (map (\<lambda>c. (t, Chr c)) xs, rest)"
proof (induction xs arbitrary: n)
  case Nil
  then show ?case by (cases rest) auto
next
  case (Cons x xs)
  from Cons.prems have "int (length xs) \<le> n - 1" by simp
  from Cons.IH [OF Cons.prems(1) this Cons.prems(3)] Cons.prems show ?case by simp
qed

lemma pieces_text_chars: "pieces_text (map (\<lambda>c. (t, Chr c)) xs) = xs"
  by (induction xs) simp_all

lemma no_bad_chars: "\<not> list_ex (\<lambda>x. snd x = Bad) (map (\<lambda>c. (t, Chr c)) xs)"
  by (induction xs) simp_all

lemma sent_head:
  "sent t s @ rest \<noteq> []" "fst (hd (sent t s @ rest)) = t" "snd (hd (sent t s @ rest)) \<noteq> Eof"
  "sent t s \<noteq> []" "fst (hd (sent t s)) = t" "snd (hd (sent t s)) \<noteq> Eof"
  by (cases s; simp add: sent_def)+

lemma pieces_text_sent: "pieces_text (sent t s) = s @ [CHR 0x0A]"
  unfolding sent_def by (rule pieces_text_chars)

lemma no_bad_sent: "\<not> list_ex (\<lambda>x. snd x = Bad) (sent t s)"
  unfolding sent_def by (rule no_bad_chars)

lemma dropWhile_head: "xs \<noteq> [] \<Longrightarrow> \<not> P (hd xs) \<Longrightarrow> dropWhile P xs = xs"
  by (cases xs) simp_all

lemma select_ready:
  "pending st = ps \<Longrightarrow> ps \<noteq> [] \<Longrightarrow> fst (hd ps) \<le> now st + timeout \<Longrightarrow>
   select_stdout st timeout = (True, st\<lparr>now := max (now st) (fst (hd ps))\<rparr>)"
  by (cases ps) (auto simp: select_stdout_def)

lemma read_chunk_text:
  "pending st = ps \<Longrightarrow> ps \<noteq> [] \<Longrightarrow> snd (hd ps) \<noteq> Eof \<Longrightarrow>
   split_chunk CHUNK_SIZE (max (now st) (fst (hd ps))) ps = (got, left) \<Longrightarrow>
   \<not> list_ex (\<lambda>x. snd x = Bad) got \<Longrightarrow>
   read_chunk st
     = (Inr (Some (pieces_text got)), st\<lparr>now := max (now st) (fst (hd ps)), stdout := Some left\<rparr>)"
  by (cases ps) (auto simp: read_chunk_def Let_def)

lemma readline_sent:
  assumes buf: "stdout_buf st = []"
    and out: "stdout st = Some (sent t s @ rest)"
    and nl: "CHR 0x0A \<notin> set s"
    and len: "int (length s) < CHUNK_SIZE"
    and later: "rest = [] \<or> max (now st) t < fst (hd rest)"
  shows "readline_stdout st
           = (Inr (s @ [CHR 0x0A]),
              st\<lparr>now := max (now st) t, stdout := Some rest, stdout_buf := []\<rparr>)"
proof -
  let ?st2 = "st\<lparr>now := max (now st) t, stdout := Some rest\<rparr>"
  have sp: "split_chunk CHUNK_SIZE (max (now st) t) (sent t s @ rest) = (sent t s, rest)"
    unfolding sent_def using len later by (intro split_chunk_sent) simp_all
  have pend: "pending st = sent t s @ rest"
    using out by (simp add: pending_def)
  have "read_chunk st = (Inr (Some (pieces_text (sent t s))),
      st\<lparr>now := max (now st) (fst (hd (sent t s @ rest))), stdout := Some rest\<rparr>)"
    by (rule read_chunk_text [OF pend sent_head(1) sent_head(3)])
       (simp_all add: sent_head sp no_bad_sent)
  then have rc: "read_chunk st = (Inr (Some (s @ [CHR 0x0A])), ?st2)"
    by (simp add: sent_head pieces_text_sent)
  have tw: "takeWhile (\<lambda>c. c \<noteq> CHR 0x0A) (s @ [CHR 0x0A]) = s"
    using nl by (induction s) auto
  have dw: "dropWhile (\<lambda>c. c \<noteq> CHR 0x0A) (s @ [CHR 0x0A]) = [CHR 0x0A]"
    using nl by (induction s) auto
  have "readline_stdout st = readline_stdout (?st2\<lparr>stdout_buf := stdout_buf ?st2 @ (s @ [CHR 0x0A])\<rparr>)"
    using buf rc by (subst readline_stdout.simps) simp
  also have "\<dots> = (Inr (s @ [CHR 0x0A]), st\<lparr>now := max (now st) t, stdout := Some rest, stdout_buf := []\<rparr>)"
    using buf by (subst readline_stdout.simps) (simp add: tw dw)
  finally show ?thesis .
qed

lemma strip_line:
  "s \<noteq> [] \<Longrightarrow> \<not> is_space (hd s) \<Longrightarrow> \<not> is_space (last s) \<Longrightarrow> strip (s @ [CHR 0x0A]) = s"
proof -
  assume s: "s \<noteq> []" and h: "\<not> is_space (hd s)" and l: "\<not> is_space (last s)"
  have nl: "is_space (CHR 0x0A)" by (simp add: is_space_def)
  have a: "dropWhile is_space (s @ [CHR 0x0A]) = s @ [CHR 0x0A]"
    using s h by (cases s) simp_all
  have b: "dropWhile is_space (rev s) = rev s"
    using s l by (intro dropWhile_head) (simp_all add: hd_rev)
  show ?thesis by (simp add: strip_def rstrip_def a nl b)
qed

lemma deep_line_facts:
  "deep_line \<noteq> []" "hd deep_line = CHR ''[''" "last deep_line = CHR ''[''"
  "CHR 0x0A \<notin> set deep_line" "int (length deep_line) < CHUNK_SIZE"
  by (simp_all add: deep_line_def CHUNK_SIZE_def)

lemma deep_line_loads: "example_loads deep_line = Inl RecursionError"
proof -
  have "hd deep_line \<noteq> hd tools_line_1" "hd deep_line \<noteq> hd tools_line_2"
    "hd deep_line \<noteq> hd tool_error_line"
    by (simp_all add: deep_line_facts tools_line_1_def tools_line_2_def tool_error_line_def)
  then have "deep_line \<noteq> tools_line_1" "deep_line \<noteq> tools_line_2" "deep_line \<noteq> tool_error_line"
    by auto
  then show ?thesis by (simp add: example_loads_def)
qed

subsection \<open>Noise on the response stream\<close>

text \<open>
  C7, as the spec states it, fails: \<^verbatim>\<open>_read_message\<close> catches \<^verbatim>\<open>json.JSONDecodeError\<close> only,
  around \<^verbatim>\<open>json.loads\<close> only. A line of 1100 opening brackets is not valid JSON, and
  \<^verbatim>\<open>json.loads\<close> raises \<^verbatim>\<open>RecursionError\<close> on it; a line with a byte the decoder rejects makes
  \<^verbatim>\<open>readline\<close> raise \<^verbatim>\<open>UnicodeDecodeError\<close>. Both leave \<^verbatim>\<open>_read_message\<close>.
\<close>

theorem decode_errors_counterexample:
  "fst (read_message example_loads
          (example_client False (sent 5 deep_line @ sent 10 tools_line_1)) 1000)
     = Inl RecursionError
   \<and> fst (read_message example_loads
          (example_client False ((5, Bad) # sent 5 noise_line @ sent 10 tools_line_1)) 1000)
     = Inl UnicodeDecodeError"
proof -
  let ?c = "example_client False (sent 5 deep_line @ sent 10 tools_line_1)"
  let ?st2 = "?c\<lparr>now := 5, stdout := Some (sent 10 tools_line_1), stdout_buf := []\<rparr>"
  have c: "now ?c = 0" "stdout ?c = Some (sent 5 deep_line @ sent 10 tools_line_1)"
    "stdout_buf ?c = []"
    by (simp_all add: example_client_def MCPClient_init_def)
  have sel: "select_stdout ?c (min 200 ((now ?c + 1000) - now ?c)) = (True, ?c\<lparr>now := 5\<rparr>)"
    using select_ready [of ?c "sent 5 deep_line @ sent 10 tools_line_1" "min 200 ((now ?c + 1000) - now ?c)"]
    by (simp add: pending_def c sent_head)
  have rl: "readline_stdout (?c\<lparr>now := 5\<rparr>) = (Inr (deep_line @ [CHR 0x0A]), ?st2)"
    using readline_sent [of "?c\<lparr>now := 5\<rparr>" 5 deep_line "sent 10 tools_line_1"]
      sent_head(2) [of 10 tools_line_1 "[]"]
    by (simp add: c deep_line_facts)
  have sp: "\<not> is_space (CHR ''['')" by (simp add: is_space_def)
  have st: "strip (deep_line @ [CHR 0x0A]) = deep_line"
    by (rule strip_line) (simp_all add: deep_line_facts sp)
  have "read_loop example_loads ?c (now ?c + 1000) = (Inl RecursionError, ?st2)"
    by (rule read_loop_loads_error [where loads = example_loads, OF _ sel rl])
       (simp_all add: c st deep_line_facts deep_line_loads)
  then have a: "fst (read_message example_loads ?c 1000) = Inl RecursionError"
    by (simp add: read_message_def c)
  have b: "fst (read_message example_loads
          (example_client False ((5, Bad) # sent 5 noise_line @ sent 10 tools_line_1)) 1000)
     = Inl UnicodeDecodeError"
    by code_simp
  from a b show ?thesis by simp
qed

text \<open>
  C7, amended. A line read from the response stream (\<^verbatim>\<open>select\<close> reported the pipe ready
  and \<^verbatim>\<open>readline\<close> returned the line) that is blank, or on which \<^verbatim>\<open>json.loads\<close> raises
  \<^verbatim>\<open>JSONDecodeError\<close>, raises nothing and is not returned: \<^verbatim>\<open>_read_message\<close> drops it
  (printing it when verbose and not blank) and goes on from the state \<^verbatim>\<open>readline\<close> left,
  with the same deadline. \<^verbatim>\<open>JSONDecodeError\<close> never leaves \<^verbatim>\<open>_read_message\<close> or \<^verbatim>\<open>request\<close>,
  and every message they return is a value \<^verbatim>\<open>json.loads\<close> returned for a text that is not
  blank.
\<close>

theorem json_decode_error_discarded:
  assumes "\<not> deadline - now st \<le> 0"
    and "select_stdout st (min 200 (deadline - now st)) = (True, st1)"
    and "readline_stdout st1 = (Inr line, st2)"
    and "noise loads line"
  shows "read_loop loads st deadline
           = read_loop loads
               (if strip line \<noteq> [] \<and> verbose st2
                then py_print st2 (''[mcp-stdout] Non-JSON line ignored: '' @ strip line)
                else st2)
               deadline
       \<and> (\<forall>r st'. read_loop loads st deadline = (r, st') \<longrightarrow>
            r \<noteq> Inl JSONDecodeError
            \<and> (\<forall>msg. r = Inr msg \<longrightarrow> (\<exists>s. s \<noteq> [] \<and> loads s = Inr msg)))
       \<and> (\<forall>request_id m started limit r st'.
            request_loop loads st request_id m started limit = (r, st') \<longrightarrow>
            r \<noteq> Inl JSONDecodeError
            \<and> (\<forall>msg. r = Inr msg \<longrightarrow> (\<exists>s. s \<noteq> [] \<and> loads s = Inr msg)))"
proof -
  have ne: "line \<noteq> []" using assms(4) by (simp add: noise_def)
  have step: "read_loop loads st deadline
           = read_loop loads
               (if strip line \<noteq> [] \<and> verbose st2
                then py_print st2 (''[mcp-stdout] Non-JSON line ignored: '' @ strip line)
                else st2) deadline"
  proof (cases "strip line = []")
    case True
    with read_loop_blank [where loads = loads, OF assms(1,2,3) ne] show ?thesis by simp
  next
    case False
    with assms(4) have "loads (strip line) = Inl JSONDecodeError" by (simp add: noise_def)
    from read_loop_non_json [where loads = loads, OF assms(1,2,3) ne False this] False
    show ?thesis by simp
  qed
  have a: "r \<noteq> Inl JSONDecodeError
      \<and> (\<forall>msg. r = Inr msg \<longrightarrow> (\<exists>s. s \<noteq> [] \<and> loads s = Inr msg))"
    if "read_loop loads st deadline = (r, st')" for r st'
    using read_loop_effect [OF that] by blast
  have b: "r \<noteq> Inl JSONDecodeError
      \<and> (\<forall>msg. r = Inr msg \<longrightarrow> (\<exists>s. s \<noteq> [] \<and> loads s = Inr msg))"
    if "request_loop loads st request_id m started limit = (r, st')"
    for request_id m started limit r st'
    using request_loop_effect [OF that] by blast
  from step a b show ?thesis by blast
qed

theorem json_decode_error_discarded_witness:
  "noise example_loads (noise_line @ [CHR 0x0A])
   \<and> read_loop example_loads
       (example_client True (sent 5 noise_line @ sent 7 [] @ sent 10 tools_line_1)) 1000
     = read_loop example_loads
         (py_print
            ((example_client True (sent 5 noise_line @ sent 7 [] @ sent 10 tools_line_1))
             \<lparr>now := 5, stdout := Some (sent 7 [] @ sent 10 tools_line_1)\<rparr>)
            (''[mcp-stdout] Non-JSON line ignored: '' @ noise_line)) 1000
   \<and> fst (read_loop example_loads
       (example_client True (sent 5 noise_line @ sent 7 [] @ sent 10 tools_line_1)) 1000)
     = Inr (tools_message 1)"
proof -
  let ?c = "example_client True (sent 5 noise_line @ sent 7 [] @ sent 10 tools_line_1)"
  let ?st2 = "?c\<lparr>now := 5, stdout := Some (sent 7 [] @ sent 10 tools_line_1)\<rparr>"
  have n: "now ?c = 0" and v: "verbose ?st2"
    by (simp_all add: example_client_def MCPClient_init_def)
  have h1: "\<not> 1000 - now ?c \<le> 0" by (simp add: n)
  have h2: "select_stdout ?c (min 200 (1000 - now ?c)) = (True, ?c\<lparr>now := 5\<rparr>)" by code_simp
  have h3: "readline_stdout (?c\<lparr>now := 5\<rparr>) = (Inr (noise_line @ [CHR 0x0A]), ?st2)" by code_simp
  have h4: "noise example_loads (noise_line @ [CHR 0x0A])" by code_simp
  have s: "strip (noise_line @ [CHR 0x0A]) = noise_line" by code_simp
  have nl: "noise_line \<noteq> []" by (simp add: noise_line_def)
  have e: "fst (read_loop example_loads ?c 1000) = Inr (tools_message 1)" by code_simp
  note step = json_decode_error_discarded [where loads = example_loads, OF h1 h2 h3 h4,
      THEN conjunct1]
  show ?thesis using step h4 e by (simp add: s v nl)
qed

subsection \<open>A response for another id\<close>

text \<open>
  C1, as the spec states it, fails: the code has no error for a response with another id.
  A first call (id 1) times out after 50 ms; its response arrives at 100 ms, while the
  second call (id 2) waits. The second call does not fail: it reads the stray response,
  drops it, and returns the response with id 2.
\<close>

theorem stray_response_counterexample:
  "fst (request example_loads
          (example_client False (sent 100 tools_line_1 @ sent 120 tools_line_2))
          ''tools/list'' None (Some 50))
     = Inl (MCPError ''Timed out waiting for MCP response'')
   \<and> fst (request example_loads
         (snd (request example_loads
          (example_client False (sent 100 tools_line_1 @ sent 120 tools_line_2))
          ''tools/list'' None (Some 50)))
         ''tools/list'' None None)
     = Inr (tools_message 2)
   \<and> unread (snd (request example_loads
         (snd (request example_loads
          (example_client False (sent 100 tools_line_1 @ sent 120 tools_line_2))
          ''tools/list'' None (Some 50)))
         ''tools/list'' None None))
     = 0"
  by code_simp

text \<open>
  When the stray response and the awaited one are written together, the wrapper reads
  both from the pipe at once: the awaited one stays in its buffer, where \<^verbatim>\<open>select\<close> does
  not see it, and the call times out.
\<close>

lemma buffered_response_not_seen:
  "fst (request example_loads
          ((example_client False (sent 100 tools_line_1 @ sent 100 tools_line_2))
           \<lparr>next_id := 2\<rparr>)
          ''tools/list'' None (Some 1000))
     = Inl (MCPError ''Timed out waiting for MCP response'')"
  by code_simp

text \<open>
  C1, amended. While a call with request id \<open>N\<close> waits and time remains, a line read from
  the response stream that decodes to an object whose \<open>id\<close> is present and not equal to \<open>N\<close>
  is not surfaced as an error: the call neither fails on it nor returns it, and goes on
  exactly as the loop of \<^verbatim>\<open>request\<close> does from the state in which the line is consumed,
  with the same start time and limit. A message that the call returns always has an \<open>id\<close>
  equal to \<open>N\<close>.
\<close>

theorem stray_response_skipped:
  assumes "\<not> limit - (now st - started) \<le> 0"
    and "stdout st \<noteq> None"
    and "select_stdout st (min 200 (limit - (now st - started))) = (True, st1)"
    and "readline_stdout st1 = (Inr line, st2)"
    and "strip line \<noteq> []"
    and "loads (strip line) = Inr (JObject kvs)"
    and "map_of kvs ''id'' = Some v"
    and "\<not> py_eq_int v request_id"
  shows "request_loop loads st request_id m started limit
           = request_loop loads st2 request_id m started limit
       \<and> (\<forall>r st'. request_loop loads st request_id m started limit = (r, st') \<longrightarrow>
            (\<forall>msg. r = Inr msg \<longrightarrow>
               (\<exists>kvs'. msg = JObject kvs' \<and> py_eq_int (dict_get kvs' ''id'' JNull) request_id)))"
proof -
  let ?rem = "limit - (now st - started)"
  have ne: "line \<noteq> []" using assms(5) strip_Nil by auto
  have eq: "(now st + ?rem) - now st = ?rem" by simp
  have rem: "\<not> (now st + ?rem) - now st \<le> 0" unfolding eq by (rule assms(1))
  have sel: "select_stdout st (min 200 ((now st + ?rem) - now st)) = (True, st1)"
    unfolding eq by (rule assms(3))
  have "read_loop loads st (now st + ?rem) = (Inr (JObject kvs), st2)"
    using read_loop_message [where loads = loads, OF rem sel assms(4) ne assms(5,6)] assms(7)
    by simp
  then have "read_message loads st ?rem = (Inr (JObject kvs), st2)"
    using assms(2) by (simp add: read_message_def)
  then have step: "request_loop loads st request_id m started limit
           = request_loop loads st2 request_id m started limit"
    using assms(1,7,8) by (subst request_loop_unfold) (simp add: dict_get_def)
  have "\<exists>kvs'. msg = JObject kvs' \<and> py_eq_int (dict_get kvs' ''id'' JNull) request_id"
    if "request_loop loads st request_id m started limit = (Inr msg, st')" for msg st'
    using request_loop_effect [OF that] by blast
  with step show ?thesis by blast
qed

theorem stray_response_skipped_witness:
  "request_loop example_loads
     ((example_client False (sent 100 tools_line_1 @ sent 120 tools_line_2))
      \<lparr>next_id := 3, now := 50\<rparr>) 2 ''tools/list'' 50 20000
     = request_loop example_loads
         ((example_client False (sent 100 tools_line_1 @ sent 120 tools_line_2))
          \<lparr>next_id := 3, now := 100, stdout := Some (sent 120 tools_line_2)\<rparr>)
         2 ''tools/list'' 50 20000
   \<and> fst (request_loop example_loads
     ((example_client False (sent 100 tools_line_1 @ sent 120 tools_line_2))
      \<lparr>next_id := 3, now := 50\<rparr>) 2 ''tools/list'' 50 20000)
     = Inr (tools_message 2)"
proof -
  let ?c = "(example_client False (sent 100 tools_line_1 @ sent 120 tools_line_2))
      \<lparr>next_id := 3, now := 50\<rparr>"
  let ?st1 = "(example_client False (sent 100 tools_line_1 @ sent 120 tools_line_2))
      \<lparr>next_id := 3, now := 100\<rparr>"
  let ?st2 = "(example_client False (sent 100 tools_line_1 @ sent 120 tools_line_2))
          \<lparr>next_id := 3, now := 100, stdout := Some (sent 120 tools_line_2)\<rparr>"
  let ?kvs = "[(''jsonrpc'', JString ''2.0''), (''id'', JInt 1),
              (''result'', JObject [(''tools'', JArray [])])]"
  have h1: "\<not> 20000 - (now ?c - 50) \<le> 0" by simp
  have h2: "stdout ?c \<noteq> None" by (simp add: example_client_def MCPClient_init_def)
  have h3: "select_stdout ?c (min 200 (20000 - (now ?c - 50))) = (True, ?st1)" by code_simp
  have h4: "readline_stdout ?st1 = (Inr (tools_line_1 @ [CHR 0x0A]), ?st2)" by code_simp
  have h5: "strip (tools_line_1 @ [CHR 0x0A]) \<noteq> []" by code_simp
  have h6: "example_loads (strip (tools_line_1 @ [CHR 0x0A])) = Inr (JObject ?kvs)" by code_simp
  have h7: "map_of ?kvs ''id'' = Some (JInt 1)" by simp
  have h8: "\<not> py_eq_int (JInt 1) 2" by simp
  have e: "fst (request_loop example_loads ?c 2 ''tools/list'' 50 20000) = Inr (tools_message 2)"
    by code_simp
  note step = stray_response_skipped [where loads = example_loads and m = "''tools/list''",
      OF h1 h2 h3 h4 h5 h6 h7 h8, THEN conjunct1]
  show ?thesis using step e by simp
qed

subsection \<open>Request ids\<close>

text \<open>
  C2. Every \<^verbatim>\<open>request\<close> takes the current value of \<^verbatim>\<open>_next_id\<close> as its id and leaves the
  counter one higher, whether it returns or raises; the payload it writes carries that id;
  and a response it returns has an \<open>id\<close> equal to it (\<^verbatim>\<open>==\<close> of Python; when the \<open>id\<close> of
  the response is an int, it is the same int). Over any sequence of requests the ids
  taken are strictly increasing, hence never reused, and each returned response carries
  the id of its own request.
\<close>

theorem request_ids_fresh_and_matched:
  "(request loads st m p timeout = (r, st1) \<longrightarrow>
      next_id st1 = next_id st + 1
      \<and> dict_get (case request_payload (next_id st) m p of JObject kvs \<Rightarrow> kvs | _ \<Rightarrow> []) ''id'' JNull
          = JInt (next_id st)
      \<and> (\<forall>w. stdin st = Some w \<longrightarrow> stdin st1 = Some (w @ [request_payload (next_id st) m p]))
      \<and> (\<forall>msg. r = Inr msg \<longrightarrow>
            (\<exists>kvs. msg = JObject kvs \<and> py_eq_int (dict_get kvs ''id'' JNull) (next_id st)
               \<and> (\<forall>i. dict_get kvs ''id'' JNull = JInt i \<longrightarrow> i = next_id st))))
   \<and> (request_many loads st calls = (trace, st') \<longrightarrow>
        sorted_wrt (<) (map fst trace) \<and> distinct (map fst trace) \<and> length trace = length calls
        \<and> (\<forall>i\<in>set (map fst trace). next_id st \<le> i \<and> i < next_id st')
        \<and> next_id st' = next_id st + int (length calls)
        \<and> (\<forall>x\<in>set trace. \<forall>msg. snd x = Inr msg \<longrightarrow>
             (\<exists>kvs. msg = JObject kvs \<and> py_eq_int (dict_get kvs ''id'' JNull) (fst x))))"
proof -
  have one: "next_id st1 = next_id st + 1
      \<and> dict_get (case request_payload (next_id st) m p of JObject kvs \<Rightarrow> kvs | _ \<Rightarrow> []) ''id'' JNull
          = JInt (next_id st)
      \<and> (\<forall>w. stdin st = Some w \<longrightarrow> stdin st1 = Some (w @ [request_payload (next_id st) m p]))
      \<and> (\<forall>msg. r = Inr msg \<longrightarrow>
            (\<exists>kvs. msg = JObject kvs \<and> py_eq_int (dict_get kvs ''id'' JNull) (next_id st)
               \<and> (\<forall>i. dict_get kvs ''id'' JNull = JInt i \<longrightarrow> i = next_id st)))"
    if req: "request loads st m p timeout = (r, st1)"
  proof (intro conjI allI impI)
    show "next_id st1 = next_id st + 1" using request_effect(1) [OF req] .
    show "dict_get (case request_payload (next_id st) m p of JObject kvs \<Rightarrow> kvs | _ \<Rightarrow> []) ''id'' JNull
          = JInt (next_id st)"
      by (simp add: request_payload_def dict_get_def)
    show "stdin st1 = Some (w @ [request_payload (next_id st) m p])" if "stdin st = Some w" for w
      using request_effect(2) [OF req that] .
    show "\<exists>kvs. msg = JObject kvs \<and> py_eq_int (dict_get kvs ''id'' JNull) (next_id st)
               \<and> (\<forall>i. dict_get kvs ''id'' JNull = JInt i \<longrightarrow> i = next_id st)"
      if "r = Inr msg" for msg
      using request_effect(3) [OF req that] by auto
  qed
  have many: "sorted_wrt (<) (map fst trace) \<and> distinct (map fst trace) \<and> length trace = length calls
        \<and> (\<forall>i\<in>set (map fst trace). next_id st \<le> i \<and> i < next_id st')
        \<and> next_id st' = next_id st + int (length calls)
        \<and> (\<forall>x\<in>set trace. \<forall>msg. snd x = Inr msg \<longrightarrow>
             (\<exists>kvs. msg = JObject kvs \<and> py_eq_int (dict_get kvs ''id'' JNull) (fst x)))"
    if "request_many loads st calls = (trace, st')"
  proof -
    note ids = request_many_ids [OF that]
    then have "sorted_wrt (<) (map fst trace)" by simp
    then have "distinct (map fst trace)" by (simp add: strict_sorted_iff)
    with ids show ?thesis by blast
  qed
  from one many show ?thesis by blast
qed

theorem request_ids_fresh_and_matched_witness:
  "map fst (fst (request_many example_loads
       (example_client False (sent 10 tools_line_1 @ sent 20 tools_line_2))
       [(''tools/list'', None, None), (''tools/list'', None, None)])) = [1, 2]
   \<and> map snd (fst (request_many example_loads
       (example_client False (sent 10 tools_line_1 @ sent 20 tools_line_2))
       [(''tools/list'', None, None), (''tools/list'', None, None)]))
       = [Inr (tools_message 1), Inr (tools_message 2)]
   \<and> sorted_wrt (<) (map fst (fst (request_many example_loads
       (example_client False (sent 10 tools_line_1 @ sent 20 tools_line_2))
       [(''tools/list'', None, None), (''tools/list'', None, None)])))
   \<and> next_id (snd (request example_loads
       (example_client False (sent 10 tools_line_1 @ sent 20 tools_line_2))
       ''tools/list'' None None)) = 2"
proof -
  let ?c = "example_client False (sent 10 tools_line_1 @ sent 20 tools_line_2)"
  let ?calls = "[(''tools/list'', None, None), (''tools/list'', None, None)]
                  :: (string \<times> (string \<times> json) list option \<times> int option) list"
  let ?one = "request example_loads ?c ''tools/list'' None None"
  let ?many = "request_many example_loads ?c ?calls"
  have e: "map fst (fst ?many) = [1, 2]"
      "map snd (fst ?many) = [Inr (tools_message 1), Inr (tools_message 2)]"
    by code_simp+
  have n: "next_id ?c = 1" by (simp add: example_client_def MCPClient_init_def)
  from request_ids_fresh_and_matched [of example_loads ?c "''tools/list''" None None
      "fst ?one" "snd ?one" ?calls "fst ?many" "snd ?many"]
  have "next_id (snd ?one) = next_id ?c + 1" and "sorted_wrt (<) (map fst (fst ?many))"
    by simp_all
  with e n show ?thesis by simp
qed

subsection \<open>The error flag of a tool result\<close>

text \<open>
  C6. When the response to \<^verbatim>\<open>tools/call\<close> has no \<open>error\<close> member and its result has
  \<open>isError\<close> true, \<^verbatim>\<open>call_tool\<close> raises \<^verbatim>\<open>MCPError("Tool '<name>' returned error: <text>")\<close>
  (the spec's ToolInvocationError), where the text is what \<^verbatim>\<open>text_from_content\<close> extracts
  from the content of the result: for typed parts, the non-empty texts joined by newlines.
\<close>

theorem tool_error_flag_raises:
  assumes "request loads st ''tools/call''
             (Some [(''name'', JString name), (''arguments'', JObject arguments)]) timeout
             = (Inr (JObject resp), st1)"
    and "map_of resp ''error'' = None"
    and "dict_get resp ''result'' (JObject []) = JObject res"
    and "dict_get res ''isError'' (JBool False) = JBool True"
    and "text_from_content (dict_get res ''content'' (JArray [])) = Inr text"
  shows "call_tool loads py_str st name arguments timeout
           = (Inl (MCPError (''Tool '' @ [CHR 0x27] @ name @ [CHR 0x27] @ '' returned error: '' @ text)),
              st1)
       \<and> (\<forall>ps. dict_get res ''content'' (JArray []) = content_json ps \<longrightarrow>
             text = join [CHR 0x0A] (filter (\<lambda>t. t \<noteq> []) (texts_of ps)))"
  using assms by (auto simp: call_tool_def text_from_content_typed)

theorem tool_error_flag_raises_witness:
  "fst (call_tool example_loads (\<lambda>j. ''?'')
          (example_client False (sent 30 tool_error_line)) ''run_scene'' [] None)
     = Inl (MCPError (''Tool '' @ [CHR 0x27] @ ''run_scene'' @ [CHR 0x27]
                        @ '' returned error: scene not found''))"
proof -
  let ?c = "example_client False (sent 30 tool_error_line)"
  let ?req = "request example_loads ?c ''tools/call''
             (Some [(''name'', JString ''run_scene''), (''arguments'', JObject [])]) None"
  let ?res = "[(''content'', JArray [JObject [(''type'', JString ''text''),
                                          (''text'', JString ''scene not found'')]]),
                        (''isError'', JBool True)]"
  let ?resp = "[(''jsonrpc'', JString ''2.0''), (''id'', JInt 1), (''result'', JObject ?res)]"
  have "fst ?req = Inr (JObject ?resp)" by code_simp
  then have h1: "?req = (Inr (JObject ?resp), snd ?req)"
    by (metis prod.collapse)
  have h2: "map_of ?resp ''error'' = None" by simp
  have h3: "dict_get ?resp ''result'' (JObject []) = JObject ?res" by (simp add: dict_get_def)
  have h4: "dict_get ?res ''isError'' (JBool False) = JBool True" by (simp add: dict_get_def)
  have h5: "text_from_content (dict_get ?res ''content'' (JArray [])) = Inr ''scene not found''"
    by code_simp
  from tool_error_flag_raises [where py_str = "\<lambda>j. ''?''", OF h1 h2 h3 h4 h5, THEN conjunct1]
  show ?thesis by simp
qed

end
